theory Spec2Isabelle
  imports Main
begin

section \<open>Python text\<close>

text \<open>
  A Python \<open>str\<close> is modelled as a \<open>string\<close>: each \<open>char\<close> stands for the code point
  of the same number, so the modelled alphabet is the code points below 256.
  The string methods the engine calls are written out below as CPython defines them on
  that alphabet.
\<close>

definition py_isspace :: "char \<Rightarrow> bool" where
  \<comment> \<open>\<open>str.isspace\<close> on one code point: TAB, LF, VT, FF, CR, the separators
      0x1C..0x1F, SPACE, NEL (0x85) and NBSP (0xA0).\<close>
  "py_isspace c =
     (let n = (of_char c :: nat)
      in (9 \<le> n \<and> n \<le> 13) \<or> (28 \<le> n \<and> n \<le> 32) \<or> n = 133 \<or> n = 160)"

definition py_strip :: "string \<Rightarrow> string" where
  \<comment> \<open>\<open>s.strip()\<close>: drop the leading and the trailing whitespace.\<close>
  "py_strip s = rev (dropWhile py_isspace (rev (dropWhile py_isspace s)))"

definition first_component :: "string \<Rightarrow> string" where
  \<comment> \<open>\<open>s.split('.')[0]\<close>: the text before the first dot.\<close>
  "first_component s = takeWhile (\<lambda>c. c \<noteq> CHR ''.'') s"

fun startswith_underscore :: "string \<Rightarrow> bool" where
  \<comment> \<open>\<open>k.startswith('_')\<close>\<close>
  "startswith_underscore [] = False"
| "startswith_underscore (c # cs) = (c = CHR ''_'')"

definition py_lower :: "string \<Rightarrow> string" where
  \<comment> \<open>\<open>s.lower()\<close>: A..Z and the Latin-1 capitals 0xC0..0xDE (but 0xD7) move up by 32.\<close>
  "py_lower s =
     map (\<lambda>c. let n = (of_char c :: nat)
              in if (65 \<le> n \<and> n \<le> 90) \<or> (192 \<le> n \<and> n \<le> 222 \<and> n \<noteq> 215)
                 then char_of (n + 32) else c) s"

fun contains :: "string \<Rightarrow> string \<Rightarrow> bool" where
  \<comment> \<open>\<open>sub in s\<close>\<close>
  "contains sub [] = (sub = [])"
| "contains sub (c # cs) = (take (length sub) (c # cs) = sub \<or> contains sub cs)"

definition is_quote :: "char \<Rightarrow> bool" where
  \<comment> \<open>the double quote or the apostrophe\<close>
  "is_quote c = (c = CHR 0x22 \<or> c = CHR 0x27)"

text \<open>
  One match of the pattern \<open>df\[(["\'])([^"\']*)\1\]\<close> at the start of a text: the
  quote of group 1, the text of group 2 and the text after the match. Group 2 holds no
  quote, and a quote must follow it, so group 2 is the run up to the next quote.
\<close>

definition match_df :: "string \<Rightarrow> (char \<times> string \<times> string) option" where
  "match_df s =
     (case s of
        d # f # b # q # rest \<Rightarrow>
          if d = CHR ''d'' \<and> f = CHR ''f'' \<and> b = CHR ''['' \<and> is_quote q then
            (case dropWhile (\<lambda>c. \<not> is_quote c) rest of
               q' # r # tail \<Rightarrow>
                 if q' = q \<and> r = CHR '']''
                 then Some (q, takeWhile (\<lambda>c. \<not> is_quote c) rest, tail)
                 else None
             | _ \<Rightarrow> None)
          else None
      | _ \<Rightarrow> None)"

lemma match_df_shorter:
  assumes "match_df s = Some (q, inner, tail)"
  shows "length tail < length s"
proof -
  from assms obtain d f b q0 rest where s: "s = d # f # b # q0 # rest"
    by (auto simp: match_df_def split: list.splits)
  from assms s obtain q' r where dw: "dropWhile (\<lambda>c. \<not> is_quote c) rest = q' # r # tail"
    by (auto simp: match_df_def split: list.splits if_splits)
  have "length (dropWhile (\<lambda>c. \<not> is_quote c) rest) \<le> length rest"
    by (rule length_dropWhile_le)
  with dw s show ?thesis by simp
qed

text \<open>
  \<open>re.sub(pattern, lambda m: f'df[{m.group(1)}{m.group(2).strip()}{m.group(1)}]', code)\<close>:
  the matches are found from left to right without overlap, each is replaced, the text
  between them is kept.
\<close>

function re_sub_df :: "string \<Rightarrow> string" where
  "re_sub_df [] = []"
| "re_sub_df (c # cs) =
     (case match_df (c # cs) of
        Some (q, inner, tail) \<Rightarrow> ''df['' @ [q] @ py_strip inner @ [q] @ '']'' @ re_sub_df tail
      | None \<Rightarrow> c # re_sub_df cs)"
  by pat_completeness auto
termination
  by (relation "measure length") (auto dest: match_df_shorter)

section \<open>Exceptions\<close>

text \<open>
  \<open>execute_code\<close> ends in nine \<open>except\<close> clauses, tried in source order: SyntaxError,
  NameError, KeyError, AttributeError, ImportError, ValueError, TypeError, IndexError and
  the catch-all \<open>Exception\<close>. An exception value is classified by the first of these
  classes it is an instance of; \<open>NotException\<close> is the family of the exceptions that
  derive from \<open>BaseException\<close> only (SystemExit, KeyboardInterrupt, GeneratorExit), which
  no \<open>except Exception\<close> clause catches. All eight named classes derive from
  \<open>Exception\<close>, so \<open>except Exception\<close> catches exactly the families other than
  \<open>NotException\<close>.

  \<open>type_name\<close> is \<open>type(e).__name__\<close>. \<open>str_of\<close> is what \<open>str(e)\<close> does: it returns
  the message (\<open>Inr\<close>), or, for an exception class whose own \<open>__str__\<close> raises, it raises
  another exception (\<open>Inl\<close>).
\<close>

datatype exc_family =
    SyntaxError | NameError | KeyError | AttributeError | ImportError
  | ValueError | TypeError | IndexError | OtherException | NotException

datatype py_exc =
  PyExc (family: exc_family) (type_name: string) (str_of: "py_exc + string")

definition is_Exception :: "py_exc \<Rightarrow> bool" where
  \<comment> \<open>whether \<open>except Exception\<close> catches it\<close>
  "is_Exception e = (family e \<noteq> NotException)"

section \<open>ASTSecurityAnalyzer\<close>

text \<open>
  The syntax tree that \<open>ast.parse\<close> returns, reduced to what the visitor looks at.
  \<open>Import names\<close> carries the \<open>alias.name\<close> of every alias; \<open>ImportFrom module names\<close>
  carries \<open>node.module\<close> (\<open>None\<close> for \<open>from . import x\<close>); \<open>Call func args\<close> carries the
  callee and the other child nodes (arguments and keyword values); \<open>Attribute value attr\<close>
  the object expression and the attribute name; \<open>Name ident\<close> a plain name. \<open>Other\<close> is
  any other node (the module itself, statements, operators, constants) with its child
  nodes in field order. An \<open>alias\<close> node has no visitor and no children, so visiting the
  aliases of an import changes nothing and they are not kept as nodes.
\<close>

datatype node =
    Import "string list"
  | ImportFrom "string option" "string list"
  | Call node "node list"
  | Attribute node string
  | Name string
  | Other "node list"

text \<open>
  The instance state set up by \<open>__init__\<close>. The three collections are Python sets; the
  four configuration sets are empty and never read.
\<close>

record analyzer =
  violations :: "string list"
  imports_set :: "string set"
  function_calls :: "string set"
  attribute_accesses :: "string set"
  dangerous_builtins :: "string set"
  dangerous_modules :: "string set"
  allowed_modules :: "string set"
  dangerous_attributes :: "string set"

definition new_analyzer :: analyzer where
  "new_analyzer =
     \<lparr> violations = [], imports_set = {}, function_calls = {}, attribute_accesses = {},
       dangerous_builtins = {}, dangerous_modules = {}, allowed_modules = {},
       dangerous_attributes = {} \<rparr>"

text \<open>
  The visitor recurses through Python calls, and the interpreter has a bounded call
  stack: a call made when the stack is exhausted raises \<open>RecursionError\<close> instead of
  running. Where that happens depends on the depth at which \<open>analyze\<close> itself is
  called and on the recursion limit in force, so it is a parameter. The interpreter is
  asked at two points of the visit of each node:
  \<^item> \<open>Entering\<close>: \<open>self.visit(node)\<close> is called, looks up the method for the node class
    and calls it; nothing of the node has been recorded yet;
  \<^item> \<open>Descending\<close>: the method has recorded its names and calls \<open>generic_visit\<close>, which
    iterates over the fields of the node and visits the children that are not kept as
    nodes here (aliases, expression contexts, operators).
  It answers with the exception raised at that point, if any. The point is given by the
  node, and by the path to it: the ancestors, innermost first, each with the index of
  the child through which the path goes. The answer does not depend on the names
  collected so far.
\<close>

datatype phase = Entering | Descending

type_synonym interpreter = "(node \<times> nat) list \<Rightarrow> node \<Rightarrow> phase \<Rightarrow> py_exc option"

text \<open>
  What the four \<open>visit_*\<close> methods of the analyzer do before they call
  \<open>generic_visit\<close>; every other node class has no method of its own.
\<close>

fun record_names :: "node \<Rightarrow> analyzer \<Rightarrow> analyzer" where
  "record_names (Import names) a =
     fold (\<lambda>name s. s\<lparr>imports_set := insert (first_component name) (imports_set s)\<rparr>) names a"
| "record_names (ImportFrom module names) a =
     (case module of
        None \<Rightarrow> a
      | Some m \<Rightarrow> if m = [] then a else a\<lparr>imports_set := insert (first_component m) (imports_set a)\<rparr>)"
| "record_names (Call func args) a =
     (case func of
        Name func_name \<Rightarrow> a\<lparr>function_calls := insert func_name (function_calls a)\<rparr>
      | _ \<Rightarrow> a)"
| "record_names (Attribute val attr) a =
     a\<lparr>attribute_accesses := insert attr (attribute_accesses a)\<rparr>"
| "record_names (Name ident) a = a"
| "record_names (Other children) a = a"

text \<open>The child nodes that \<open>generic_visit\<close> visits, in field order.\<close>

fun child_nodes :: "node \<Rightarrow> node list" where
  "child_nodes (Import names) = []"
| "child_nodes (ImportFrom module names) = []"
| "child_nodes (Call func args) = func # args"
| "child_nodes (Attribute val attr) = [val]"
| "child_nodes (Name ident) = []"
| "child_nodes (Other children) = children"

lemma child_nodes_size2: "2 * size_list size (child_nodes t) < Suc (2 * size t)"
  by (cases t) simp_all

text \<open>
  \<open>NodeVisitor.visit\<close> and \<open>NodeVisitor.generic_visit\<close>. \<open>visit\<close> dispatches on the node
  class to the method of the analyzer, which records its names and calls
  \<open>generic_visit\<close>, or to \<open>generic_visit\<close> itself; \<open>generic_visit\<close> visits the child nodes
  in order. An exception raised on the way ends the visit at once: the result is the
  instance state reached, with the names recorded until then, and the exception raised,
  if any.
\<close>

function visit :: "interpreter \<Rightarrow> (node \<times> nat) list \<Rightarrow> node \<Rightarrow> analyzer \<Rightarrow> analyzer \<times> py_exc option"
  and generic_visit ::
    "interpreter \<Rightarrow> (node \<times> nat) list \<Rightarrow> node \<Rightarrow> nat \<Rightarrow> node list \<Rightarrow> analyzer \<Rightarrow> analyzer \<times> py_exc option"
  where
  "visit rt path t a =
     (case rt path t Entering of
        Some e \<Rightarrow> (a, Some e)
      | None \<Rightarrow>
          (case rt path t Descending of
             Some e \<Rightarrow> (record_names t a, Some e)
           | None \<Rightarrow> generic_visit rt path t 0 (child_nodes t) (record_names t a)))"
| "generic_visit rt path t i [] a = (a, None)"
| "generic_visit rt path t i (c # cs) a =
     (case visit rt ((t, i) # path) c a of
        (a1, Some e) \<Rightarrow> (a1, Some e)
      | (a1, None) \<Rightarrow> generic_visit rt path t (Suc i) cs a1)"
  by pat_completeness auto
termination
  by (relation "measure (\<lambda>x. case x of
                     Inl (rt, path, t, a) \<Rightarrow> 2 * size t + 1
                   | Inr (rt, path, t, i, cs, a) \<Rightarrow> 2 * size_list size cs)")
     (simp_all add: child_nodes_size2)

declare visit.simps(1) [simp del]

text \<open>
  The report dictionary. \<open>list(self.imports)\<close> lists a set in an order the language does
  not fix, so the three collections of the report are kept as sets. \<open>syntax_error\<close> is
  the key that only the failure branch adds.
\<close>

record report =
  safe :: bool
  r_violations :: "string list"
  syntax_error :: "string option"
  r_imports :: "string set"
  r_function_calls :: "string set"
  r_attribute_accesses :: "string set"
  risk_level :: string
  recommendations :: "string list"

text \<open>
  \<open>analyze\<close>. The parser \<open>ast.parse\<close> belongs to the host runtime and is a parameter: it
  returns the tree or raises. The \<open>try\<close> block parses the text and visits the tree;
  whatever either raises goes to the only clause, \<open>except SyntaxError\<close>: any other
  exception leaves \<open>analyze\<close>, and so does the exception raised by \<open>str(e)\<close> if that call
  raises. The result pairs what the call returns or raises with the instance state
  after the call, which keeps the names recorded before an exception.
\<close>

definition analyze ::
  "(string \<Rightarrow> py_exc + node) \<Rightarrow> interpreter \<Rightarrow> analyzer \<Rightarrow> string \<Rightarrow> (py_exc + report) \<times> analyzer" where
  "analyze ast_parse rt a code =
     (let (a', raised) = (case ast_parse code of
                            Inl e \<Rightarrow> (a, Some e)
                          | Inr tree \<Rightarrow> visit rt [] tree a)
      in case raised of
           None \<Rightarrow>
             (Inr \<lparr> safe = True, r_violations = [], syntax_error = None,
                    r_imports = imports_set a', r_function_calls = function_calls a',
                    r_attribute_accesses = attribute_accesses a',
                    risk_level = ''none'', recommendations = [] \<rparr>, a')
         | Some e \<Rightarrow>
             if family e = SyntaxError then
               (case str_of e of
                  Inl e' \<Rightarrow> (Inl e', a')
                | Inr msg \<Rightarrow>
                    (Inr \<lparr> safe = True, r_violations = [], syntax_error = Some msg,
                           r_imports = {}, r_function_calls = {}, r_attribute_accesses = {},
                           risk_level = ''none'', recommendations = [] \<rparr>, a'))
             else (Inl e, a'))"

section \<open>ResourceMonitor\<close>

text \<open>
  \<open>ResourceMonitor.__init__\<close>. \<open>start_time\<close> is a wall-clock reading and is left out.
\<close>

record resource_monitor =
  max_memory :: int
  max_execution_time :: int
  timeout_occurred :: bool

definition new_monitor :: "int \<Rightarrow> int \<Rightarrow> resource_monitor" where
  "new_monitor max_memory_mb max_time =
     \<lparr> max_memory = max_memory_mb * 1024 * 1024, max_execution_time = max_time,
       timeout_occurred = False \<rparr>"

datatype platform = Darwin | OtherPlatform

text \<open>
  Modelled from the spec: \<open>core/exceptions.py\<close>, which declares \<open>MemoryLimitError\<close>, is
  not among the sources. The spec lists it in the error taxonomy whose members the
  orchestrator turns into failure outcomes, so it derives from \<open>Exception\<close>; it is none
  of the eight classes named by \<open>execute_code\<close>. What its \<open>__str__\<close> renders from the two
  numbers it carries is the parameter \<open>render\<close>.
\<close>

definition MemoryLimitError :: "(int \<Rightarrow> int \<Rightarrow> py_exc + string) \<Rightarrow> int \<Rightarrow> int \<Rightarrow> py_exc" where
  "MemoryLimitError render limit_mb usage_mb =
     PyExc OtherException ''MemoryLimitError'' (render limit_mb usage_mb)"

text \<open>
  The body of the \<open>try\<close> block of \<open>check_memory_usage\<close>. \<open>sample\<close> is what
  \<open>resource.getrusage(RUSAGE_SELF).ru_maxrss\<close> gives: the number, or the exception the
  call raises. The code computes in floats; here the numbers are exact integers: the
  comparison \<open>memory_usage_bytes > self.max_memory * 1.5\<close> is written as
  \<open>2 * bytes > 3 * max_memory\<close>, and \<open>int(x / (1024*1024))\<close> as the integer quotient.
  The two agree for a limit set by \<open>__init__\<close> (a whole number of megabytes) and a
  sampled usage that is not negative, as long as the byte counts lie below \<open>2^53\<close>,
  where the float operations are exact; outside that range they can differ.
\<close>

definition check_memory_usage_body ::
  "(int \<Rightarrow> int \<Rightarrow> py_exc + string) \<Rightarrow> platform \<Rightarrow> py_exc + int \<Rightarrow> resource_monitor \<Rightarrow> py_exc + unit" where
  "check_memory_usage_body render plat sample m =
     (case sample of
        Inl e \<Rightarrow> Inl e
      | Inr memory_usage \<Rightarrow>
          (let memory_usage_bytes = (if plat = Darwin then memory_usage else memory_usage * 1024)
           in if 2 * memory_usage_bytes > 3 * max_memory m then
                (let limit_mb = max_memory m div (1024 * 1024);
                     usage_mb = memory_usage_bytes div (1024 * 1024)
                 in Inl (MemoryLimitError render limit_mb usage_mb))
              else Inr ()))"

text \<open>
  \<open>check_memory_usage\<close>: the body inside \<open>try\<close>, and the clause
  \<open>except Exception as e: logger.debug(f"...{e}")\<close> around all of it, the \<open>raise\<close>
  included. The f-string calls \<open>str(e)\<close>.
\<close>

definition check_memory_usage ::
  "(int \<Rightarrow> int \<Rightarrow> py_exc + string) \<Rightarrow> platform \<Rightarrow> py_exc + int \<Rightarrow> resource_monitor \<Rightarrow> py_exc + unit" where
  "check_memory_usage render plat sample m =
     (case check_memory_usage_body render plat sample m of
        Inr u \<Rightarrow> Inr u
      | Inl e \<Rightarrow>
          if is_Exception e then
            (case str_of e of Inl e' \<Rightarrow> Inl e' | Inr msg \<Rightarrow> Inr ())
          else Inl e)"

section \<open>SecureCodeExecutor\<close>

subsection \<open>Dictionaries and the object store\<close>

text \<open>
  The dictionaries of the engine are namespaces. \<open>context\<close> is annotated
  \<open>Dict[str, Any]\<close>, but nothing checks it, and a snippet reaches its own locals through
  \<open>locals()\<close>, so a key can be any hashable object. \<open>Plain s\<close> is an instance of \<open>str\<close>
  itself. \<open>Odd\<close> is any other key object (an integer, an instance of a subclass of
  \<open>str\<close>), given by what the engine can observe of it: the text under which a lookup
  with a \<open>str\<close> finds it (\<open>None\<close> when no \<open>str\<close> finds it), and what
  \<open>not k.startswith('_')\<close> does on it: it raises (\<open>Inl\<close>: there is no such attribute,
  the method raises, or its answer has no truth value), or the answer of the method is
  true or false (\<open>Inr\<close>).

  A \<open>dict\<close> is an association list in insertion order, as Python keeps it.
  Dictionaries are objects: two names may refer to the same one. The store maps an
  address to the dictionary that lives there; \<open>alloc\<close> creates a new object at the next
  free address. Values other than dictionaries are left abstract (\<open>'v\<close>).
\<close>

datatype key = Plain string | Odd "string option" "py_exc + bool"

fun key_text :: "key \<Rightarrow> string option" where
  "key_text (Plain s) = Some s"
| "key_text (Odd text answer) = text"

fun key_startswith :: "key \<Rightarrow> py_exc + bool" where
  \<comment> \<open>\<open>k.startswith('_')\<close>, as a truth value\<close>
  "key_startswith (Plain s) = Inr (startswith_underscore s)"
| "key_startswith (Odd text answer) = answer"

type_synonym 'v dict = "(key \<times> 'v) list"

fun dict_set :: "key \<Rightarrow> 'v \<Rightarrow> 'v dict \<Rightarrow> 'v dict" where
  \<comment> \<open>\<open>d[k] = v\<close>\<close>
  "dict_set k v [] = [(k, v)]"
| "dict_set k v ((k', v') # d) = (if k' = k then (k', v) # d else (k', v') # dict_set k v d)"

definition dict_update :: "'v dict \<Rightarrow> 'v dict \<Rightarrow> 'v dict" where
  \<comment> \<open>\<open>d.update(other)\<close>\<close>
  "dict_update d other = fold (\<lambda>(k, v) acc. dict_set k v acc) other d"

definition dict_get :: "'v dict \<Rightarrow> string \<Rightarrow> 'v option" where
  \<comment> \<open>\<open>d.get(s)\<close> for a \<open>str\<close> \<open>s\<close>; \<open>None\<close> is Python's \<open>None\<close>\<close>
  "dict_get d s = map_of (map (\<lambda>(k, v). (key_text k, v)) d) (Some s)"

type_synonym addr = nat
type_synonym 'v heap = "'v dict list"

definition alloc :: "'v dict \<Rightarrow> 'v heap \<Rightarrow> addr \<times> 'v heap" where
  "alloc d h = (length h, h @ [d])"

definition deref :: "'v heap \<Rightarrow> addr \<Rightarrow> 'v dict" where
  \<comment> \<open>a reference always designates a live object; the other branch is never taken\<close>
  "deref h a = (if a < length h then h ! a else [])"

definition store :: "addr \<Rightarrow> 'v dict \<Rightarrow> 'v heap \<Rightarrow> 'v heap" where
  "store a d h = h[a := d]"

subsection \<open>The host runtime and the collaborators\<close>

text \<open>
  After the snippet has run, \<open>execute_code\<close> goes on calling objects that the snippet
  could reach and change, since nothing is denied to it: the output buffer, which is
  \<open>sys.stdout\<close> and \<open>sys.stderr\<close> during the run (\<open>output_buffer.getvalue()\<close>), the
  locals (\<open>safe_locals.get('result')\<close>, which compares keys), the clock
  (\<open>time.time() - start_time\<close>), the logger (\<open>logger.info\<close>, \<open>logger.error\<close>) and
  \<open>traceback.format_exc()\<close>. \<open>damage\<close> lists the calls that a run has left raising, each
  with the exception it raises from then on; a call that is not listed works.
\<close>

datatype engine_call = ReadBuffer | LookupResult | ReadClock | LogInfo | LogError | FormatTraceback

type_synonym damage = "(engine_call \<times> py_exc) list"

definition fails :: "damage \<Rightarrow> engine_call \<Rightarrow> py_exc option" where
  "fails dmg c = map_of dmg c"

text \<open>
  What one \<open>exec(compiled_code, safe_globals, safe_locals)\<close> does when it comes back:
  the exception it raised, if any, the text it wrote to the redirected standard output
  and standard error, the store it leaves, and the damage it leaves.
\<close>

record 'v run =
  raised :: "py_exc option"
  written :: string
  heap_after :: "'v heap"
  spoiled :: damage

text \<open>
  The two dictionaries that \<open>validate_string\<close> and \<open>fix_string_issues\<close> of
  \<open>utils.string_escape_handler\<close> return, reduced to the keys the engine reads.
\<close>

record validation =
  valid :: bool
  errors :: "string list"

record fix_result =
  success :: bool
  fixed_code :: string

record string_handler =
  validate_string :: "string \<Rightarrow> py_exc + validation"
  fix_string_issues :: "string \<Rightarrow> py_exc + fix_result"

text \<open>
  Everything \<open>execute_code\<close> takes from outside the file. Snippets are arbitrary Python,
  so what compiling and running one does is a parameter:
  \<^item> \<open>host_compile src\<close> is \<open>compile(src, '<string>', 'exec')\<close>: the exception it raises,
    or \<open>None\<close> when it returns the code object, which is identified with \<open>src\<close>;
  \<^item> \<open>host_exec src g l h\<close> is \<open>exec\<close> of that code object with the globals at address
    \<open>g\<close> and the locals at address \<open>l\<close> in store \<open>h\<close>; \<open>None\<close> when the run never comes
    back;
  \<^item> \<open>string_escape_handler\<close> is the module \<open>utils.string_escape_handler\<close>, \<open>None\<close> when
    importing it raises \<open>ImportError\<close>;
  \<^item> \<open>builtins_dir\<close> lists \<open>dir(builtins)\<close> with \<open>getattr(builtins, name)\<close> for each name,
    \<open>None\<close> when that raises \<open>AttributeError\<close>; \<open>builtin_named\<close> is the object a builtin
    name denotes in the engine's module; \<open>unrestricted_import\<close> is the function object
    of that name; \<open>dict_object\<close> is a dictionary taken as a value.
  When \<open>execute_code\<close> is entered nothing is damaged yet: the calls it makes before the
  first run (the clock, the logger) work.
\<close>

record 'v host =
  host_compile :: "string \<Rightarrow> py_exc option"
  host_exec :: "string \<Rightarrow> addr \<Rightarrow> addr \<Rightarrow> 'v heap \<Rightarrow> 'v run option"
  string_escape_handler :: "string_handler option"
  builtins_dir :: "(string \<times> 'v option) list"
  builtin_named :: "string \<Rightarrow> 'v"
  unrestricted_import :: 'v
  dict_object :: "'v dict \<Rightarrow> 'v"

subsection \<open>The executor\<close>

text \<open>
  The instance set up by \<open>SecureCodeExecutor.__init__\<close>: its four settings, the analyzer
  and the monitor it creates, and the modules it could import (\<open>safe_modules\<close>, which
  depends on what is installed and is given).
\<close>

record 'v executor =
  max_memory_mb :: int
  max_execution_seconds :: int
  enable_ast_analysis :: bool
  enable_string_validation :: bool
  the_analyzer :: analyzer
  monitor :: resource_monitor
  safe_modules :: "'v dict"

definition new_executor :: "int \<Rightarrow> int \<Rightarrow> bool \<Rightarrow> bool \<Rightarrow> 'v dict \<Rightarrow> 'v executor" where
  "new_executor mem secs ast_analysis string_validation modules =
     \<lparr> max_memory_mb = mem, max_execution_seconds = secs, enable_ast_analysis = ast_analysis,
       enable_string_validation = string_validation, the_analyzer = new_analyzer,
       monitor = new_monitor mem secs, safe_modules = modules \<rparr>"

definition create_safe_globals :: "'v host \<Rightarrow> 'v executor \<Rightarrow> 'v dict" where
  "create_safe_globals H ex =
     (let d0 = fold (\<lambda>(name, attr) d.
                       if \<not> startswith_underscore name \<or> name = ''__import__'' then
                         (case attr of Some v \<Rightarrow> dict_set (Plain name) v d | None \<Rightarrow> d)
                       else d)
                    (builtins_dir H) [];
          d1 = dict_set (Plain ''print'') (builtin_named H ''print'') d0;
          d2 = dict_set (Plain ''open'') (builtin_named H ''open'') d1;
          d3 = dict_set (Plain ''exec'') (builtin_named H ''exec'') d2;
          d4 = dict_set (Plain ''eval'') (builtin_named H ''eval'') d3;
          safe_builtins_dict = dict_set (Plain ''__import__'') (unrestricted_import H) d4;
          safe_globals = [(Plain ''__builtins__'', dict_object H safe_builtins_dict)]
      in dict_update safe_globals (safe_modules ex))"

definition preprocess_code_original :: "string \<Rightarrow> string" where
  \<comment> \<open>\<open>re.sub\<close> on a string raises nothing, so the \<open>except Exception: pass\<close> is idle\<close>
  "preprocess_code_original code = re_sub_df code"

text \<open>
  \<open>_preprocess_code_with_string_handling\<close>. The clauses \<open>except ImportError\<close> and
  \<open>except Exception as e\<close> both fall back to the original preprocessing; the second
  formats \<open>e\<close> into its log line first. An exception of the collaborator counts as an
  \<open>ImportError\<close> when that is its family. An exception outside \<open>Exception\<close> is not
  caught.
\<close>

definition preprocess_fallback :: "py_exc \<Rightarrow> string \<Rightarrow> py_exc + string" where
  "preprocess_fallback e code =
     (if family e = ImportError then Inr (preprocess_code_original code)
      else if is_Exception e then
        (case str_of e of
           Inl e' \<Rightarrow> Inl e'
         | Inr msg \<Rightarrow> Inr (preprocess_code_original code))
      else Inl e)"

definition preprocess_code_with_string_handling :: "'v host \<Rightarrow> string \<Rightarrow> py_exc + string" where
  "preprocess_code_with_string_handling H code =
     (case string_escape_handler H of
        None \<Rightarrow> Inr (preprocess_code_original code)
      | Some sh \<Rightarrow>
          (case validate_string sh code of
             Inl e \<Rightarrow> preprocess_fallback e code
           | Inr validation \<Rightarrow>
               if \<not> valid validation then
                 (case fix_string_issues sh code of
                    Inl e \<Rightarrow> preprocess_fallback e code
                  | Inr fix_result \<Rightarrow>
                      if success fix_result
                      then Inr (preprocess_code_original (fixed_code fix_result))
                      else Inr (preprocess_code_original code))
               else Inr (preprocess_code_original code)))"

text \<open>
  \<open>_check_code_security\<close> returns the same dictionary on every path; only the key
  \<open>allowed\<close> is read.
\<close>

record security_result =
  allowed :: bool
  warnings :: "string list"

definition check_code_security :: "string \<Rightarrow> security_result" where
  "check_code_security code = \<lparr> allowed = True, warnings = [] \<rparr>"

subsection \<open>Outcomes\<close>

text \<open>
  The canned suggestion strings, by the clause that selects them: the eight clauses for
  a named class, then the default of the catch-all clause and the five it picks by a
  keyword in the message.
\<close>

datatype suggestion =
    CheckSyntax | CheckNames | CheckKeys | CheckAttributes | InstallModule
  | CheckValues | CheckArguments | CheckIndex
  | CheckLogic | PandasHint | NumpyHint | PermissionHint | MemoryHint | TimeoutHint

text \<open>
  The dictionary \<open>execute_code\<close> returns. \<open>EmptyCode\<close> is the three-key dictionary of the
  basic validation. \<open>Failure\<close> carries \<open>error\<close>, \<open>message\<close>, \<open>suggestion\<close> and \<open>output\<close>;
  \<open>Success\<close> carries \<open>output\<close>, \<open>result\<close> and the address of the new \<open>locals\<close>
  dictionary. The keys \<open>execution_time\<close> (a difference of two wall-clock readings) and
  \<open>traceback\<close> (the formatted stack) are left out.
\<close>

datatype 'v outcome =
    EmptyCode
  | Failure (error: string) (message: string) (hint: suggestion) (output_text: string)
  | Success (output_text: string) (result: "'v option") (locals_ref: addr)

definition error_name :: "py_exc \<Rightarrow> string" where
  \<comment> \<open>the \<open>'error'\<close> key: a fixed string in the eight named clauses,
      \<open>type(e).__name__\<close> in the catch-all\<close>
  "error_name e =
     (case family e of
        SyntaxError \<Rightarrow> ''SyntaxError'' | NameError \<Rightarrow> ''NameError''
      | KeyError \<Rightarrow> ''KeyError'' | AttributeError \<Rightarrow> ''AttributeError''
      | ImportError \<Rightarrow> ''ImportError'' | ValueError \<Rightarrow> ''ValueError''
      | TypeError \<Rightarrow> ''TypeError'' | IndexError \<Rightarrow> ''IndexError''
      | _ \<Rightarrow> type_name e)"

definition suggestion_for :: "py_exc \<Rightarrow> string \<Rightarrow> suggestion" where
  "suggestion_for e msg =
     (case family e of
        SyntaxError \<Rightarrow> CheckSyntax | NameError \<Rightarrow> CheckNames
      | KeyError \<Rightarrow> CheckKeys | AttributeError \<Rightarrow> CheckAttributes
      | ImportError \<Rightarrow> InstallModule | ValueError \<Rightarrow> CheckValues
      | TypeError \<Rightarrow> CheckArguments | IndexError \<Rightarrow> CheckIndex
      | _ \<Rightarrow>
          if contains ''pandas'' (py_lower msg) then PandasHint
          else if contains ''numpy'' (py_lower msg) then NumpyHint
          else if contains ''permission'' (py_lower msg) then PermissionHint
          else if contains ''memory'' (py_lower msg) then MemoryHint
          else if contains ''timeout'' (py_lower msg) then TimeoutHint
          else CheckLogic)"

text \<open>
  The exception that reading the local variable \<open>output_buffer\<close> raises in a handler
  entered before line 424 has bound it.
\<close>

definition unbound_output_buffer :: py_exc where
  "unbound_output_buffer =
     PyExc NameError ''UnboundLocalError''
       (Inr (''cannot access local variable '' @ [CHR 0x27] @ ''output_buffer'' @ [CHR 0x27]
             @ '' where it is not associated with a value''))"

text \<open>
  The nine \<open>except\<close> clauses of \<open>execute_code\<close>, for an exception that reaches them
  with the damage \<open>dmg\<close> done and the output buffer holding \<open>buffer\<close> (\<open>None\<close> when the
  variable is not bound yet). An exception outside \<open>Exception\<close> matches no clause and
  leaves the function. A matching clause reads the clock, formats the exception into
  its log line (\<open>str(e)\<close>), calls \<open>logger.error\<close>, and builds the dictionary, which
  reads the buffer and formats the traceback. What any of these raises is raised
  inside the clause and leaves the function.
\<close>

definition handle_exception :: "damage \<Rightarrow> py_exc \<Rightarrow> string option \<Rightarrow> py_exc + 'v outcome" where
  "handle_exception dmg e buffer =
     (if is_Exception e then
        (case fails dmg ReadClock of
           Some e1 \<Rightarrow> Inl e1
         | None \<Rightarrow>
        (case str_of e of
           Inl e' \<Rightarrow> Inl e'
         | Inr msg \<Rightarrow>
        (case fails dmg LogError of
           Some e2 \<Rightarrow> Inl e2
         | None \<Rightarrow>
        (case buffer of
           None \<Rightarrow> Inl unbound_output_buffer
         | Some out \<Rightarrow>
        (case fails dmg ReadBuffer of
           Some e3 \<Rightarrow> Inl e3
         | None \<Rightarrow>
        (case fails dmg FormatTraceback of
           Some e4 \<Rightarrow> Inl e4
         | None \<Rightarrow> Inr (Failure (error_name e) msg (suggestion_for e msg) out)))))))
      else Inl e)"

subsection \<open>\<open>execute_code\<close>\<close>

text \<open>
  The calls \<open>execute_code\<close> makes, in order, are recorded beside its result:
  \<open>_check_code_security\<close>, \<open>_preprocess_code_with_string_handling\<close>,
  \<open>create_safe_globals\<close>, each \<open>compile\<close> with its text and each \<open>exec\<close> with its text and
  the addresses of the globals and locals handed to it.
\<close>

datatype event =
    CheckSecurity | Preprocess | CreateGlobals
  | Compile string | Exec string addr addr

record 'v reply =
  events :: "event list"
  final_heap :: "'v heap"
  ending :: "py_exc + 'v outcome"

text \<open>
  One \<open>compile\<close> followed, if it returns, by one \<open>exec\<close> (lines 430 and 433, and again
  lines 439 and 440), with the damage \<open>dmg\<close> done before. \<open>None\<close> when the run never
  comes back. A text that does not compile is not run and damages nothing more.
\<close>

definition attempt ::
  "'v host \<Rightarrow> string \<Rightarrow> addr \<Rightarrow> addr \<Rightarrow> 'v heap \<Rightarrow> damage \<Rightarrow> (event list \<times> 'v run) option" where
  "attempt H src g l h dmg =
     (case host_compile H src of
        Some e \<Rightarrow>
          Some ([Compile src], \<lparr> raised = Some e, written = [], heap_after = h, spoiled = dmg \<rparr>)
      | None \<Rightarrow>
          (case host_exec H src g l h of
             None \<Rightarrow> None
           | Some r \<Rightarrow> Some ([Compile src, Exec src g l], r)))"

text \<open>
  The \<open>with\<close> block (lines 427 to 442): the processed text is tried; if that raises an
  exception that \<open>except Exception\<close> catches and the processed text is not the original
  one, \<open>logger.info\<close> is called and the original text is tried on the same namespaces,
  and whatever that call or that try raises goes on to the outer clauses; otherwise the
  exception is raised again. The output buffer collects what both tries wrote.
\<close>

definition sandboxed_run ::
  "'v host \<Rightarrow> string \<Rightarrow> string \<Rightarrow> addr \<Rightarrow> addr \<Rightarrow> 'v heap \<Rightarrow> (event list \<times> 'v run) option" where
  "sandboxed_run H processed_code code g l h =
     (case attempt H processed_code g l h [] of
        None \<Rightarrow> None
      | Some (evs1, r1) \<Rightarrow>
          (case raised r1 of
             None \<Rightarrow> Some (evs1, r1)
           | Some e \<Rightarrow>
               if is_Exception e then
                 (if processed_code \<noteq> code then
                    (case fails (spoiled r1) LogInfo of
                       Some e_log \<Rightarrow> Some (evs1, r1\<lparr> raised := Some e_log \<rparr>)
                     | None \<Rightarrow>
                         (case attempt H code g l (heap_after r1) (spoiled r1) of
                            None \<Rightarrow> None
                          | Some (evs2, r2) \<Rightarrow>
                              Some (evs1 @ evs2, r2\<lparr> written := written r1 @ written r2 \<rparr>)))
                  else Some (evs1, r1))
               else Some (evs1, r1)))"

text \<open>
  Lines 415 to 421: the globals are created, \<open>safe_locals\<close> is a new empty dictionary,
  and a context that is neither \<open>None\<close> nor empty is copied into it with \<open>update\<close>.
  The result is the address of the globals, the address of the locals and the store.
\<close>

definition build_namespaces ::
  "'v host \<Rightarrow> 'v executor \<Rightarrow> addr option \<Rightarrow> 'v heap \<Rightarrow> addr \<times> addr \<times> 'v heap" where
  "build_namespaces H ex ctx h =
     (let (g, h1) = alloc (create_safe_globals H ex) h;
          (l, h2) = alloc [] h1;
          h3 = (case ctx of
                  None \<Rightarrow> h2
                | Some c \<Rightarrow>
                    if deref h2 c = [] then h2
                    else store l (dict_update (deref h2 l) (deref h2 c)) h2)
      in (g, l, h3))"

text \<open>
  The comprehension of line 458, \<open>{k: v for k, v in safe_locals.items() if not
  k.startswith('_')}\<close>: the keys are asked in order; the first one whose
  \<open>startswith\<close> raises ends the comprehension with that exception; the entries whose
  key answers false are kept.
\<close>

fun keep_public :: "'v dict \<Rightarrow> py_exc + 'v dict" where
  "keep_public [] = Inr []"
| "keep_public ((k, v) # d) =
     (case key_startswith k of
        Inl e \<Rightarrow> Inl e
      | Inr hidden \<Rightarrow>
          (case keep_public d of
             Inl e \<Rightarrow> Inl e
           | Inr kept \<Rightarrow> Inr (if hidden then kept else (k, v) # kept)))"

text \<open>
  The first of the given engine calls, in order, that the damage makes raise.
\<close>

fun first_failure :: "damage \<Rightarrow> engine_call list \<Rightarrow> py_exc option" where
  "first_failure dmg [] = None"
| "first_failure dmg (c # cs) =
     (case fails dmg c of Some e \<Rightarrow> Some e | None \<Rightarrow> first_failure dmg cs)"

text \<open>
  Lines 444 to 459 and the clauses, for a \<open>with\<close> block that ended as the run \<open>r\<close> on
  the locals at address \<open>l\<close>. An exception of the \<open>with\<close> block goes to the clauses.
  Otherwise the buffer is read (line 445), \<open>result\<close> is looked up (line 448), the clock
  is read (line 450), \<open>logger.info\<close> is called (line 451) and the returned dictionary
  is built with the comprehension (line 458); all of this is still inside the \<open>try\<close>,
  so the first exception among these goes to the clauses as well. The result is what
  \<open>execute_code\<close> returns or raises, and the store, in which a success has created the
  returned \<open>locals\<close>.
\<close>

definition conclude :: "addr \<Rightarrow> 'v run \<Rightarrow> (py_exc + 'v outcome) \<times> 'v heap" where
  "conclude l r =
     (case raised r of
        Some e \<Rightarrow> (handle_exception (spoiled r) e (Some (written r)), heap_after r)
      | None \<Rightarrow>
          (case first_failure (spoiled r) [ReadBuffer, LookupResult, ReadClock, LogInfo] of
             Some e \<Rightarrow> (handle_exception (spoiled r) e (Some (written r)), heap_after r)
           | None \<Rightarrow>
               (let safe_locals = deref (heap_after r) l
                in case keep_public safe_locals of
                     Inl e \<Rightarrow> (handle_exception (spoiled r) e (Some (written r)), heap_after r)
                   | Inr kept \<Rightarrow>
                       (let (la, h4) = alloc kept (heap_after r)
                        in (Inr (Success (written r) (dict_get safe_locals ''result'') la), h4)))))"

text \<open>
  \<open>execute_code\<close>. \<open>ctx\<close> is the \<open>context\<close> argument: \<open>None\<close>, or the address of the caller's
  dictionary. The result is \<open>None\<close> when the call never returns; otherwise it holds the
  calls made, the store, and either the dictionary returned (\<open>Inr\<close>) or the exception
  that leaves the function (\<open>Inl\<close>). An exception of the preprocessing reaches the
  clauses before line 424 has bound the output buffer.
\<close>

definition execute_code ::
  "'v host \<Rightarrow> 'v executor \<Rightarrow> string \<Rightarrow> addr option \<Rightarrow> 'v heap \<Rightarrow> 'v reply option" where
  "execute_code H ex code ctx h =
     (if code = [] \<or> py_strip code = [] then
        Some \<lparr> events = [], final_heap = h, ending = Inr EmptyCode \<rparr>
      else
        let security_result = check_code_security code
        in case preprocess_code_with_string_handling H code of
             Inl e \<Rightarrow>
               Some \<lparr> events = [CheckSecurity, Preprocess], final_heap = h,
                      ending = handle_exception [] e None \<rparr>
           | Inr processed_code \<Rightarrow>
               (let (g, l, h3) = build_namespaces H ex ctx h
                in case sandboxed_run H processed_code code g l h3 of
                     None \<Rightarrow> None
                   | Some (evs, r) \<Rightarrow>
                       (let (reported, h4) = conclude l r
                        in Some \<lparr> events = [CheckSecurity, Preprocess, CreateGlobals] @ evs,
                                  final_heap = h4, ending = reported \<rparr>)))"

section \<open>Example hosts\<close>

text \<open>
  The closed examples below need a concrete parser. \<open>demo_parse\<close> is a finite table of
  what \<open>ast.parse\<close> of CPython 3.11 does on the texts the examples use: \<open>import os\<close>
  and \<open>x = 1\<close> parse to a module with one statement; \<open>x =\<close> is rejected with a
  \<open>SyntaxError\<close>; \<open>too_deep\<close>, a literal under 100000 unary minus signs, overflows the
  parser's stack, which is reported as a \<open>MemoryError\<close> with an empty message, not as a
  \<open>SyntaxError\<close>; \<open>deep_chain\<close>, the name \<open>a\<close> followed by 400 times \<open>.b\<close>, parses to
  a module whose one statement is an expression of 400 nested attribute accesses.
  Every other text stands for the empty module.
\<close>

definition too_deep :: string where
  "too_deep = replicate 100000 (CHR ''-'') @ ''1''"

definition deep_chain :: string where
  "deep_chain = ''a'' @ concat (replicate 400 ''.b'')"

fun attribute_chain :: "nat \<Rightarrow> node" where
  "attribute_chain 0 = Name ''a''"
| "attribute_chain (Suc n) = Attribute (attribute_chain n) ''b''"

definition demo_parse :: "string \<Rightarrow> py_exc + node" where
  "demo_parse code =
     (if code = ''import os'' then Inr (Other [Import [''os'']])
      else if code = ''x = 1'' then Inr (Other [Other [Name ''x'', Other []]])
      else if code = ''x ='' then
        Inl (PyExc SyntaxError ''SyntaxError'' (Inr ''invalid syntax (<unknown>, line 1)''))
      else if code = too_deep then Inl (PyExc OtherException ''MemoryError'' (Inr []))
      else if code = deep_chain then Inr (Other [Other [attribute_chain 400]])
      else Inr (Other []))"

text \<open>
  Two interpreters for the examples. \<open>unbounded\<close> never runs out of stack. \<open>call_stack room\<close>
  has room for \<open>room\<close> more frames when \<open>analyze\<close> calls \<open>self.visit(tree)\<close>, and counts
  frames as CPython 3.11 does: while the children of a node are visited, the node holds
  the frame of \<open>visit\<close>, the frame of \<open>generic_visit\<close> and, for the four classes with a
  method of their own, the frame of that method; entering a node takes two frames; the
  descent takes the frames the node holds and one more for the iteration over its
  fields, or three more where a child that is not kept as a node is visited (the
  aliases of an import, the context of a name). With the default recursion limit of
  1000, of which the caller at module level and \<open>analyze\<close> hold two, \<open>room\<close> is 998.
\<close>

definition unbounded :: interpreter where
  "unbounded path t ph = None"

fun has_method :: "node \<Rightarrow> bool" where
  "has_method (Import names) = True"
| "has_method (ImportFrom module names) = True"
| "has_method (Call func args) = True"
| "has_method (Attribute val attr) = True"
| "has_method (Name ident) = False"
| "has_method (Other children) = False"

fun frames_held :: "node \<Rightarrow> nat" where
  "frames_held t = (if has_method t then 3 else 2)"

fun frames_needed :: "node \<Rightarrow> phase \<Rightarrow> nat" where
  "frames_needed t Entering = 2"
| "frames_needed (Import names) Descending = 6"
| "frames_needed (ImportFrom module names) Descending = 6"
| "frames_needed (Call func args) Descending = 4"
| "frames_needed (Attribute val attr) Descending = 4"
| "frames_needed (Name ident) Descending = 5"
| "frames_needed (Other children) Descending = 3"

definition recursion_error :: py_exc where
  "recursion_error = PyExc OtherException ''RecursionError'' (Inr ''maximum recursion depth exceeded'')"

definition call_stack :: "nat \<Rightarrow> interpreter" where
  "call_stack room path t ph =
     (if sum_list (map (\<lambda>(n, i). frames_held n) path) + frames_needed t ph > room
      then Some recursion_error else None)"

text \<open>
  The closed examples about \<open>execute_code\<close> need a concrete host. \<open>demo_host\<close> is a
  finite table of what CPython 3.11 does with the snippets the examples use; its values
  are integers, strings and named opaque objects. In the table
  \<^item> \<open>while True: pass\<close> never comes back;
  \<^item> \<open>raise SystemExit\<close>, also with a trailing comment, raises \<open>SystemExit\<close>, which
    derives from \<open>BaseException\<close> only;
  \<^item> \<open>result = 2 + 2\<close> binds \<open>result\<close> to 4 in the locals;
  \<^item> \<open>x = 1/0\<close> raises \<open>ZeroDivisionError\<close>;
  \<^item> \<open>_t = 1; x = 2\<close> binds both names in the locals;
  \<^item> \<open>df_lookup\<close> is the text \<open>result = df[' a ']\<close>, run with \<open>df\<close> bound to a
    mapping whose only key is \<open>' a '\<close> with value 1: it binds \<open>result\<close> to 1, while
    \<open>df_lookup_stripped\<close>, the text \<open>result = df['a']\<close> that the preprocessing makes
    of it, raises \<open>KeyError\<close>;
  \<^item> \<open>int_key_lookup\<close> is \<open>locals()[1] = 2; result = df[' a ']\<close>, run with the same
    \<open>df\<close>: it binds the integer 1 as a key of the locals and then does as \<open>df_lookup\<close>,
    and so does the text \<open>int_key_lookup_stripped\<close> that the preprocessing makes of
    it, which raises \<open>KeyError\<close> after binding the key; an integer has no \<open>startswith\<close>;
  \<^item> \<open>close_stdout\<close> is \<open>import sys; sys.stdout.close()\<close>: it binds \<open>sys\<close> and closes
    the output buffer, after which \<open>getvalue()\<close> raises \<open>ValueError\<close>;
  \<^item> \<open>subclass_key\<close> is
    \<open>K = type('K', (str,), {'startswith': lambda s, p: False}); locals()[K('_secret')] = 1; x = 2\<close>:
    it binds \<open>K\<close>, then a key that is the text \<open>_secret\<close> as an instance of \<open>K\<close>, whose
    \<open>startswith\<close> answers false, then \<open>x\<close>;
  \<^item> \<open>unprintable\<close> is \<open>raise type(chr(69), (Exception,), dict(__str__=None))()\<close>: it
    raises an instance of a new subclass \<open>E\<close> of \<open>Exception\<close> on which \<open>str(e)\<close> raises
    \<open>TypeError\<close>;
  \<^item> every other text does nothing.
  Nothing fails to compile, the module \<open>utils.string_escape_handler\<close> is not
  importable, and no snippet writes to the output.
\<close>

datatype demo_val = IntV int | StrV string | Obj string

definition quoted :: "string \<Rightarrow> string" where
  "quoted s = CHR 0x27 # s @ [CHR 0x27]"

definition df_lookup :: string where
  "df_lookup = ''result = df['' @ quoted '' a '' @ '']''"

definition df_lookup_stripped :: string where
  "df_lookup_stripped = ''result = df['' @ quoted ''a'' @ '']''"

definition int_key_lookup :: string where
  "int_key_lookup = ''locals()[1] = 2; result = df['' @ quoted '' a '' @ '']''"

definition int_key_lookup_stripped :: string where
  "int_key_lookup_stripped = ''locals()[1] = 2; result = df['' @ quoted ''a'' @ '']''"

definition exit_with_comment :: string where
  "exit_with_comment = ''raise SystemExit  # df['' @ quoted '' a '' @ '']''"

definition exit_with_comment_stripped :: string where
  "exit_with_comment_stripped = ''raise SystemExit  # df['' @ quoted ''a'' @ '']''"

definition close_stdout :: string where
  "close_stdout = ''import sys; sys.stdout.close()''"

definition subclass_key :: string where
  "subclass_key = ''K = type('' @ quoted ''K'' @ '', (str,), {'' @ quoted ''startswith''
     @ '': lambda s, p: False}); locals()[K('' @ quoted ''_secret'' @ '')] = 1; x = 2''"

definition unprintable :: string where
  "unprintable = ''raise type(chr(69), (Exception,), dict(__str__=None))()''"

definition system_exit :: py_exc where
  "system_exit = PyExc NotException ''SystemExit'' (Inr [])"

definition key_error_a :: py_exc where
  "key_error_a = PyExc KeyError ''KeyError'' (Inr (quoted ''a''))"

definition closed_file :: py_exc where
  "closed_file = PyExc ValueError ''ValueError'' (Inr ''I/O operation on closed file'')"

definition not_callable :: py_exc where
  "not_callable = PyExc TypeError ''TypeError''
     (Inr (quoted ''NoneType'' @ '' object is not callable''))"

definition no_startswith :: py_exc where
  "no_startswith = PyExc AttributeError ''AttributeError''
     (Inr (quoted ''int'' @ '' object has no attribute '' @ quoted ''startswith''))"

definition int_key :: key where
  \<comment> \<open>the integer 1 as a key\<close>
  "int_key = Odd None (Inl no_startswith)"

definition secret_key :: key where
  \<comment> \<open>\<open>K('_secret')\<close>\<close>
  "secret_key = Odd (Some ''_secret'') (Inr False)"

definition returns_with :: "'v heap \<Rightarrow> 'v run" where
  "returns_with h = \<lparr> raised = None, written = [], heap_after = h, spoiled = [] \<rparr>"

definition raises_with :: "py_exc \<Rightarrow> 'v heap \<Rightarrow> 'v run" where
  "raises_with e h = \<lparr> raised = Some e, written = [], heap_after = h, spoiled = [] \<rparr>"

definition demo_exec :: "string \<Rightarrow> addr \<Rightarrow> addr \<Rightarrow> demo_val heap \<Rightarrow> demo_val run option" where
  "demo_exec src g l h =
     (if src = ''while True: pass'' then None
      else if src = ''raise SystemExit'' \<or> src = exit_with_comment \<or> src = exit_with_comment_stripped
        then Some (raises_with system_exit h)
      else if src = ''result = 2 + 2''
        then Some (returns_with (store l (dict_set (Plain ''result'') (IntV 4) (deref h l)) h))
      else if src = ''x = 1/0''
        then Some (raises_with (PyExc OtherException ''ZeroDivisionError'' (Inr ''division by zero'')) h)
      else if src = ''_t = 1; x = 2''
        then Some (returns_with
                (store l (dict_set (Plain ''x'') (IntV 2)
                            (dict_set (Plain ''_t'') (IntV 1) (deref h l))) h))
      else if src = df_lookup_stripped
        then Some (raises_with key_error_a h)
      else if src = df_lookup
        then Some (returns_with (store l (dict_set (Plain ''result'') (IntV 1) (deref h l)) h))
      else if src = int_key_lookup_stripped
        then Some (raises_with key_error_a (store l (dict_set int_key (IntV 2) (deref h l)) h))
      else if src = int_key_lookup
        then Some (returns_with
                (store l (dict_set (Plain ''result'') (IntV 1)
                            (dict_set int_key (IntV 2) (deref h l))) h))
      else if src = close_stdout
        then Some ((returns_with (store l (dict_set (Plain ''sys'') (Obj ''sys'') (deref h l)) h))
                     \<lparr> spoiled := [(ReadBuffer, closed_file)] \<rparr>)
      else if src = subclass_key
        then Some (returns_with
                (store l (dict_set (Plain ''x'') (IntV 2)
                            (dict_set secret_key (IntV 1)
                               (dict_set (Plain ''K'') (Obj ''K'') (deref h l)))) h))
      else if src = unprintable
        then Some (raises_with (PyExc OtherException ''E'' (Inl not_callable)) h)
      else Some (returns_with h))"

definition demo_host :: "demo_val host" where
  "demo_host =
     \<lparr> host_compile = (\<lambda>src. None),
       host_exec = demo_exec,
       string_escape_handler = None,
       builtins_dir = [(''__doc__'', Some (StrV ''Built-in functions'')),
                       (''__import__'', Some (Obj ''__import__'')),
                       (''len'', Some (Obj ''len'')),
                       (''print'', Some (Obj ''print''))],
       builtin_named = Obj,
       unrestricted_import = Obj ''unrestricted_import'',
       dict_object = (\<lambda>d. Obj ''dict'') \<rparr>"

definition demo_executor :: "demo_val executor" where
  "demo_executor = new_executor 2048 120 False True [(Plain ''math'', Obj ''math'')]"

definition frame_heap :: "demo_val heap" where
  "frame_heap = [[(Plain ''df'', Obj ''frame'')]]"

definition frame_heap_built :: "demo_val heap" where
  "frame_heap_built =
     [[(Plain ''df'', Obj ''frame'')],
      [(Plain ''__builtins__'', Obj ''dict''), (Plain ''math'', Obj ''math'')],
      [(Plain ''df'', Obj ''frame'')]]"

section \<open>Auxiliary functions for the proofs\<close>

text \<open>
  A caller making successive \<open>analyze\<close> calls on one instance, dropping what each call
  returns or raises: the instance state after the calls.
\<close>

fun analyze_calls ::
  "(string \<Rightarrow> py_exc + node) \<Rightarrow> interpreter \<Rightarrow> analyzer \<Rightarrow> string list \<Rightarrow> analyzer" where
  "analyze_calls ast_parse rt a [] = a"
| "analyze_calls ast_parse rt a (code # codes) =
     analyze_calls ast_parse rt (snd (analyze ast_parse rt a code)) codes"

text \<open>
  \<open>analyzable ast_parse rt code\<close>: the parser returns a tree for \<open>code\<close> and the visit of
  that tree runs to its end, or the parser raises a \<open>SyntaxError\<close> whose message
  renders. Whether a visit runs to its end does not depend on the instance state it
  starts from (lemma \<open>visit_raises_same\<close>).
\<close>

definition visit_completes :: "interpreter \<Rightarrow> node \<Rightarrow> bool" where
  "visit_completes rt tree = (snd (visit rt [] tree new_analyzer) = None)"

definition analyzable :: "(string \<Rightarrow> py_exc + node) \<Rightarrow> interpreter \<Rightarrow> string \<Rightarrow> bool" where
  "analyzable ast_parse rt code =
     (case ast_parse code of
        Inr tree \<Rightarrow> visit_completes rt tree
      | Inl e \<Rightarrow> family e = SyntaxError \<and> \<not> isl (str_of e))"

text \<open>\<open>absorb\<close> adds three sets of names to the collections of an instance.\<close>

definition absorb :: "string set \<Rightarrow> string set \<Rightarrow> string set \<Rightarrow> analyzer \<Rightarrow> analyzer" where
  "absorb I C A a =
     a\<lparr>imports_set := imports_set a \<union> I, function_calls := function_calls a \<union> C,
       attribute_accesses := attribute_accesses a \<union> A\<rparr>"

text \<open>Every name that the instance \<open>a\<close> holds, the instance \<open>b\<close> holds too.\<close>

definition collected_within :: "analyzer \<Rightarrow> analyzer \<Rightarrow> bool" where
  "collected_within a b =
     (imports_set a \<subseteq> imports_set b \<and> function_calls a \<subseteq> function_calls b
      \<and> attribute_accesses a \<subseteq> attribute_accesses b)"

text \<open>
  A step of the visit is uniform when the names it adds and the exception it raises, if
  any, do not depend on the instance state it starts from.
\<close>

definition uniform :: "(analyzer \<Rightarrow> analyzer \<times> py_exc option) \<Rightarrow> bool" where
  "uniform f = (\<exists>I C A err. \<forall>a. f a = (absorb I C A a, err))"






text \<open>Whether a recorded call is a \<open>compile\<close>.\<close>

fun is_compile :: "event \<Rightarrow> bool" where
  "is_compile (Compile src) = True"
| "is_compile ev = False"

text \<open>
  A host whose snippets write to no dictionary that exists when they start, other than
  the two namespaces they are handed: the store only grows, and every other object is
  as it was.
\<close>

definition writes_only_namespaces :: "'v host \<Rightarrow> bool" where
  "writes_only_namespaces H =
     (\<forall>src g l h r. host_exec H src g l h = Some r \<longrightarrow>
        length h \<le> length (heap_after r)
        \<and> (\<forall>a < length h. a \<noteq> g \<and> a \<noteq> l \<longrightarrow> heap_after r ! a = h ! a))"

section \<open>Properties of the analyzer\<close>

lemma fold_imports:
  "fold (\<lambda>name s. s\<lparr>imports_set := insert (first_component name) (imports_set s)\<rparr>) names a
     = a\<lparr>imports_set := imports_set a \<union> first_component ` set names\<rparr>"
  by (induction names arbitrary: a) auto

lemma absorb_nothing: "absorb {} {} {} a = a"
  by (simp add: absorb_def)

lemma absorb_absorb: "absorb I' C' A' (absorb I C A a) = absorb (I \<union> I') (C \<union> C') (A \<union> A') a"
  by (simp add: absorb_def Un_assoc)

lemma absorb_idem: "absorb I C A (absorb I C A a) = absorb I C A a"
  by (simp add: absorb_absorb)

lemma record_names_absorb: "\<exists>I C A. \<forall>a. record_names t a = absorb I C A a"
proof (cases t)
  case (Import names)
  have "\<forall>a. record_names t a = absorb (first_component ` set names) {} {} a"
    by (simp add: Import fold_imports absorb_def)
  then show ?thesis by blast
next
  case (ImportFrom module names)
  show ?thesis
  proof (cases "module = None \<or> module = Some []")
    case True
    with ImportFrom have "\<forall>a. record_names t a = absorb {} {} {} a"
      by (auto simp: absorb_def)
    then show ?thesis by blast
  next
    case False
    then obtain m where "module = Some m" and "m \<noteq> []" by (cases module) auto
    with ImportFrom have "\<forall>a. record_names t a = absorb {first_component m} {} {} a"
      by (simp add: absorb_def)
    then show ?thesis by blast
  qed
next
  case (Call func args)
  have "\<forall>a. record_names t a
          = absorb {} (case func of Name func_name \<Rightarrow> {func_name} | _ \<Rightarrow> {}) {} a"
    by (cases func) (simp_all add: Call absorb_def)
  then show ?thesis by blast
next
  case (Attribute val attr)
  then have "\<forall>a. record_names t a = absorb {} {} {attr} a"
    by (simp add: absorb_def)
  then show ?thesis by blast
next
  case (Name ident)
  then have "\<forall>a. record_names t a = absorb {} {} {} a" by (simp add: absorb_def)
  then show ?thesis by blast
next
  case (Other children)
  then have "\<forall>a. record_names t a = absorb {} {} {} a" by (simp add: absorb_def)
  then show ?thesis by blast
qed

lemma uniformI: "(\<And>a. f a = (absorb I C A a, err)) \<Longrightarrow> uniform f"
  unfolding uniform_def by blast

lemma uniform_after:
  assumes "\<forall>a. g a = absorb I C A a" and "uniform f"
  shows "uniform (\<lambda>a. f (g a))"
proof -
  from assms(2) obtain I' C' A' err where f: "\<And>a. f a = (absorb I' C' A' a, err)"
    unfolding uniform_def by blast
  show ?thesis
    by (rule uniformI [of _ "I \<union> I'" "C \<union> C'" "A \<union> A'" err]) (simp add: assms(1) f absorb_absorb)
qed

lemma visit_uniform:
  "uniform (visit rt path t)"
  "uniform (generic_visit rt path t i cs)"
proof (induction rt path t "a :: analyzer" and rt path t i cs "a :: analyzer"
       rule: visit_generic_visit.induct)
  case (1 rt path t a)
  obtain I C A where rec: "\<forall>a. record_names t a = absorb I C A a"
    using record_names_absorb by blast
  show ?case
  proof (cases "rt path t Entering")
    case (Some e)
    show ?thesis
      by (rule uniformI [of _ "{}" "{}" "{}" "Some e"]) (simp add: visit.simps(1) Some absorb_nothing)
  next
    case None
    show ?thesis
    proof (cases "rt path t Descending")
      case (Some e)
      show ?thesis
        by (rule uniformI [of _ I C A "Some e"]) (simp add: visit.simps(1) None Some rec)
    next
      case none: None
      from "1.IH" [OF None none]
      have "uniform (generic_visit rt path t 0 (child_nodes t))" .
      from uniform_after [OF rec this]
      have "uniform (\<lambda>a. generic_visit rt path t 0 (child_nodes t) (record_names t a))" .
      moreover have "visit rt path t
                       = (\<lambda>a. generic_visit rt path t 0 (child_nodes t) (record_names t a))"
        by (rule ext) (simp add: visit.simps(1) None none)
      ultimately show ?thesis by simp
    qed
  qed
next
  case (2 rt path t i a)
  show ?case
    by (rule uniformI [of _ "{}" "{}" "{}" None]) (simp add: absorb_nothing)
next
  case (3 rt path t i c cs a)
  from "3.IH"(1) obtain I C A err
    where v: "\<And>a. visit rt ((t, i) # path) c a = (absorb I C A a, err)"
    unfolding uniform_def by blast
  show ?case
  proof (cases err)
    case (Some e)
    show ?thesis
      by (rule uniformI [of _ I C A "Some e"]) (simp add: v Some)
  next
    case None
    from "3.IH"(2) [of "absorb I C A a" err] v [of a] None
    have "uniform (generic_visit rt path t (Suc i) cs)" by simp
    from uniform_after [of "absorb I C A" I C A, OF _ this]
    have "uniform (\<lambda>a. generic_visit rt path t (Suc i) cs (absorb I C A a))" by simp
    moreover have "generic_visit rt path t i (c # cs)
                     = (\<lambda>a. generic_visit rt path t (Suc i) cs (absorb I C A a))"
      by (rule ext) (simp add: v None)
    ultimately show ?thesis by simp
  qed
qed

lemma visit_idem: "visit rt path t (fst (visit rt path t a)) = visit rt path t a"
proof -
  from visit_uniform(1) [of rt path t] obtain I C A err
    where v: "\<And>a. visit rt path t a = (absorb I C A a, err)"
    unfolding uniform_def by blast
  show ?thesis by (simp add: v absorb_idem)
qed

lemma visit_raises_same: "snd (visit rt path t a) = snd (visit rt path t b)"
proof -
  from visit_uniform(1) [of rt path t] obtain I C A err
    where v: "\<And>a. visit rt path t a = (absorb I C A a, err)"
    unfolding uniform_def by blast
  show ?thesis by (simp add: v)
qed

lemma collected_within_refl: "collected_within a a"
  by (simp add: collected_within_def)

lemma collected_within_trans:
  "collected_within a b \<Longrightarrow> collected_within b c \<Longrightarrow> collected_within a c"
  by (auto simp: collected_within_def)

lemma visit_grows: "collected_within a (fst (visit rt path t a))"
proof -
  from visit_uniform(1) [of rt path t] obtain I C A err
    where v: "\<And>a. visit rt path t a = (absorb I C A a, err)"
    unfolding uniform_def by blast
  show ?thesis by (simp add: v absorb_def collected_within_def)
qed

lemma analyze_state:
  "snd (analyze ast_parse rt a code) =
     (case ast_parse code of Inr tree \<Rightarrow> fst (visit rt [] tree a) | Inl e \<Rightarrow> a)"
  by (simp add: analyze_def Let_def split: sum.splits prod.splits option.splits)

lemma analyze_grows: "collected_within a (snd (analyze ast_parse rt a code))"
  by (simp add: analyze_state visit_grows collected_within_refl split: sum.splits)

lemma analyze_calls_grows: "collected_within a (analyze_calls ast_parse rt a codes)"
proof (induction codes arbitrary: a)
  case Nil
  show ?case by (simp add: collected_within_refl)
next
  case (Cons code codes)
  have "collected_within a (snd (analyze ast_parse rt a code))"
    by (rule analyze_grows)
  moreover have "collected_within (snd (analyze ast_parse rt a code))
                   (analyze_calls ast_parse rt (snd (analyze ast_parse rt a code)) codes)"
    by (rule Cons.IH)
  ultimately show ?case
    using collected_within_trans by auto
qed

lemma analyze_calls_append:
  "analyze_calls ast_parse rt a (xs @ ys)
     = analyze_calls ast_parse rt (analyze_calls ast_parse rt a xs) ys"
  by (induction xs arbitrary: a) simp_all

lemma analyze_calls_prefix:
  "collected_within (analyze_calls ast_parse rt a (take n codes)) (analyze_calls ast_parse rt a codes)"
proof -
  have "analyze_calls ast_parse rt a codes =
      analyze_calls ast_parse rt (analyze_calls ast_parse rt a (take n codes)) (drop n codes)"
    using analyze_calls_append [of ast_parse rt a "take n codes" "drop n codes"] by simp
  then show ?thesis
    using analyze_calls_grows [of "analyze_calls ast_parse rt a (take n codes)" ast_parse rt "drop n codes"]
    by simp
qed

lemma analyze_report_shape:
  assumes "fst (analyze ast_parse rt a code) = Inr r"
  shows "case syntax_error r of
           None \<Rightarrow> r_imports r = imports_set (snd (analyze ast_parse rt a code))
                   \<and> r_function_calls r = function_calls (snd (analyze ast_parse rt a code))
                   \<and> r_attribute_accesses r = attribute_accesses (snd (analyze ast_parse rt a code))
         | Some msg \<Rightarrow> r_imports r = {} \<and> r_function_calls r = {} \<and> r_attribute_accesses r = {}"
  using assms
  by (auto simp: analyze_def Let_def split: sum.splits prod.splits option.splits if_splits)

lemma too_deep_length: "length too_deep = 100001"
  by (simp add: too_deep_def)

lemma deep_chain_length: "length deep_chain = 801"
  by (simp add: deep_chain_def length_concat sum_list_replicate)

lemma too_deep_neq [simp]:
  "length s < 100 \<Longrightarrow> (too_deep = s) = False"
  "length s < 100 \<Longrightarrow> (s = too_deep) = False"
  "(too_deep = deep_chain) = False"
  "(deep_chain = too_deep) = False"
  using too_deep_length deep_chain_length by auto

lemma deep_chain_neq [simp]:
  "length s < 100 \<Longrightarrow> (deep_chain = s) = False"
  "length s < 100 \<Longrightarrow> (s = deep_chain) = False"
  using deep_chain_length by auto

lemma demo_parse_deep_chain: "demo_parse deep_chain = Inr (Other [Other [attribute_chain 400]])"
  by (simp add: demo_parse_def)

text \<open>
  A chain of \<open>n\<close> attribute accesses overflows a stack with room for fewer frames than
  the path holds plus \<open>3 * n + 5\<close>: the visit raises \<open>RecursionError\<close>, and it has
  recorded the attribute name by then unless it could not even enter the chain.
\<close>

lemma chain_overflows:
  "room < sum_list (map (\<lambda>(n, i). frames_held n) path) + 3 * n + 5 \<Longrightarrow>
   visit (call_stack room) path (attribute_chain n) a
     = (if n = 0 \<or> room < sum_list (map (\<lambda>(n, i). frames_held n) path) + 2 then a
        else a\<lparr>attribute_accesses := insert ''b'' (attribute_accesses a)\<rparr>,
        Some recursion_error)"
proof (induction n arbitrary: path a)
  case 0
  let ?u = "sum_list (map (\<lambda>(n, i). frames_held n) path)"
  show ?case
  proof (cases "room < ?u + 2")
    case True
    then have "call_stack room path (Name ''a'') Entering = Some recursion_error"
      by (simp add: call_stack_def)
    with True show ?thesis by (simp add: visit.simps(1))
  next
    case False
    then have "call_stack room path (Name ''a'') Entering = None"
      by (simp add: call_stack_def)
    moreover from 0 have "call_stack room path (Name ''a'') Descending = Some recursion_error"
      by (simp add: call_stack_def)
    ultimately show ?thesis by (simp add: visit.simps(1))
  qed
next
  case (Suc m)
  let ?t = "Attribute (attribute_chain m) ''b''"
  let ?u = "sum_list (map (\<lambda>(n, i). frames_held n) path)"
  let ?a1 = "a\<lparr>attribute_accesses := insert ''b'' (attribute_accesses a)\<rparr>"
  show ?case
  proof (cases "room < ?u + 2")
    case True
    then have "call_stack room path ?t Entering = Some recursion_error"
      by (simp add: call_stack_def)
    with True show ?thesis by (simp add: visit.simps(1))
  next
    case False
    then have enter: "call_stack room path ?t Entering = None"
      by (simp add: call_stack_def)
    show ?thesis
    proof (cases "room < ?u + 4")
      case True
      then have "call_stack room path ?t Descending = Some recursion_error"
        by (simp add: call_stack_def)
      with False enter show ?thesis by (simp add: visit.simps(1))
    next
      case enough: False
      from Suc.prems
      have "room < sum_list (map (\<lambda>(n, i). frames_held n) ((?t, 0) # path)) + 3 * m + 5"
        by simp
      from Suc.IH [OF this, of ?a1]
      have "fst (visit (call_stack room) ((?t, 0) # path) (attribute_chain m) ?a1) = ?a1"
        and "snd (visit (call_stack room) ((?t, 0) # path) (attribute_chain m) ?a1)
               = Some recursion_error"
        by simp_all
      then have "visit (call_stack room) ((?t, 0) # path) (attribute_chain m) ?a1
                   = (?a1, Some recursion_error)"
        by (metis prod.collapse)
      moreover from enough have "call_stack room path ?t Descending = None"
        by (simp add: call_stack_def)
      ultimately show ?thesis
        using False enter by (simp add: visit.simps(1) [of _ path])
    qed
  qed
qed

lemma visit_deep_chain:
  "visit (call_stack 998) [] (Other [Other [attribute_chain 400]]) a
     = (a\<lparr>attribute_accesses := insert ''b'' (attribute_accesses a)\<rparr>, Some recursion_error)"
proof -
  let ?m = "Other [Other [attribute_chain 400]]"
  let ?s = "Other [attribute_chain 400]"
  have "visit (call_stack 998) [(?s, 0), (?m, 0)] (attribute_chain 400) a
          = (a\<lparr>attribute_accesses := insert ''b'' (attribute_accesses a)\<rparr>, Some recursion_error)"
    using chain_overflows [of 998 "[(?s, 0), (?m, 0)]" 400 a] by simp
  moreover have "call_stack 998 [] ?m Entering = None" "call_stack 998 [] ?m Descending = None"
    "call_stack 998 [(?m, 0)] ?s Entering = None" "call_stack 998 [(?m, 0)] ?s Descending = None"
    by (simp_all add: call_stack_def)
  ultimately show ?thesis
    by (simp add: visit.simps(1) [of _ "[]"] visit.simps(1) [of _ "[(?m, 0)]"])
qed

lemma analyze_deep_chain:
  "analyze demo_parse (call_stack 998) a deep_chain
     = (Inl recursion_error, a\<lparr>attribute_accesses := insert ''b'' (attribute_accesses a)\<rparr>)"
  by (simp add: analyze_def demo_parse_deep_chain visit_deep_chain recursion_error_def)

lemma visit_import_os:
  "visit (call_stack 998) [] (Other [Import [''os'']]) a
     = (a\<lparr>imports_set := insert ''os'' (imports_set a)\<rparr>, None)"
  by (simp add: visit.simps(1) call_stack_def first_component_def)

lemma visit_assignment:
  "visit (call_stack 998) [] (Other [Other [Name ''x'', Other []]]) a = (a, None)"
  by (simp add: visit.simps(1) call_stack_def)

text \<open>
  Claim C6, as amended. For every input string on which the parser returns a tree whose
  visit runs to its end, or raises a \<open>SyntaxError\<close> whose message renders, \<open>analyze\<close>
  returns a report without raising, with \<open>safe\<close> true, no violations and risk level
  \<open>none\<close>; after a \<open>SyntaxError\<close> the message is in the report's own \<open>syntax_error\<close>
  field, and after a successful parse that field is absent.
\<close>

theorem analyze_returns_safe_report:
  assumes "analyzable ast_parse rt code"
  shows "\<exists>r. fst (analyze ast_parse rt a code) = Inr r \<and> safe r \<and> r_violations r = []
           \<and> risk_level r = ''none''
           \<and> syntax_error r =
               (case ast_parse code of Inr tree \<Rightarrow> None
                | Inl e \<Rightarrow> (case str_of e of Inr msg \<Rightarrow> Some msg | Inl e' \<Rightarrow> None))"
proof (cases "ast_parse code")
  case (Inr tree)
  with assms have "snd (visit rt [] tree new_analyzer) = None"
    by (simp add: analyzable_def visit_completes_def)
  with visit_raises_same [of rt "[]" tree a new_analyzer]
  have "snd (visit rt [] tree a) = None" by simp
  then obtain a' where "visit rt [] tree a = (a', None)"
    by (cases "visit rt [] tree a") simp
  with Inr show ?thesis by (simp add: analyze_def)
next
  case (Inl e)
  with assms have fam: "family e = SyntaxError" and str: "\<not> isl (str_of e)"
    by (simp_all add: analyzable_def)
  from str obtain msg where "str_of e = Inr msg" by (cases "str_of e") simp_all
  with Inl fam show ?thesis by (simp add: analyze_def)
qed

text \<open>
  The theorem at the text \<open>x =\<close>, which the parser rejects, and at the text
  \<open>import os\<close>, whose visit runs to its end on a stack with room for 998 frames.
\<close>

theorem analyze_returns_safe_report_witness:
  "analyzable demo_parse (call_stack 998) ''x =''
   \<and> (\<exists>r. fst (analyze demo_parse (call_stack 998) new_analyzer ''x ='') = Inr r \<and> safe r
         \<and> r_violations r = [] \<and> risk_level r = ''none''
         \<and> syntax_error r = Some ''invalid syntax (<unknown>, line 1)'')
   \<and> analyzable demo_parse (call_stack 998) ''import os''
   \<and> (\<exists>r. fst (analyze demo_parse (call_stack 998) new_analyzer ''import os'') = Inr r \<and> safe r
         \<and> r_violations r = [] \<and> risk_level r = ''none'' \<and> syntax_error r = None)"
proof -
  have h: "analyzable demo_parse (call_stack 998) ''x =''"
    by (simp add: analyzable_def demo_parse_def)
  have p: "demo_parse ''import os'' = Inr (Other [Import [''os'']])"
    by (simp add: demo_parse_def)
  have k: "analyzable demo_parse (call_stack 998) ''import os''"
    by (simp add: analyzable_def p visit_completes_def visit_import_os)
  show ?thesis
    using h k p
      analyze_returns_safe_report
        [where ast_parse = demo_parse and rt = "call_stack 998" and code = "''x =''"
           and a = new_analyzer]
      analyze_returns_safe_report
        [where ast_parse = demo_parse and rt = "call_stack 998" and code = "''import os''"
           and a = new_analyzer]
    by (simp add: demo_parse_def)
qed

text \<open>
  Claim C6 as stated fails in two ways. \<open>analyze\<close> catches \<open>SyntaxError\<close> only, so on
  the text \<open>too_deep\<close>, for which the parser raises \<open>MemoryError\<close>, the call raises and
  no report is returned. And the visit of a tree that the parser did return can
  exhaust the call stack: on \<open>deep_chain\<close>, with the default recursion limit, the call
  raises \<open>RecursionError\<close> after the attribute name has been recorded on the instance.
\<close>

theorem analyze_raises_counterexample:
  "fst (analyze demo_parse (call_stack 998) new_analyzer too_deep)
     = Inl (PyExc OtherException ''MemoryError'' (Inr []))
   \<and> demo_parse deep_chain = Inr (Other [Other [attribute_chain 400]])
   \<and> analyze demo_parse (call_stack 998) new_analyzer deep_chain
     = (Inl (PyExc OtherException ''RecursionError'' (Inr ''maximum recursion depth exceeded'')),
        new_analyzer\<lparr>attribute_accesses := {''b''}\<rparr>)"
  by (simp add: analyze_deep_chain demo_parse_deep_chain recursion_error_def)
     (simp add: analyze_def demo_parse_def new_analyzer_def)

text \<open>
  Claim C7, as amended. Two \<open>analyze\<close> calls made one right after the other on the same
  instance with the same text return the same report (or raise the same exception), and
  the second call leaves the instance as the first left it.
\<close>

theorem analyze_repeat_same_report:
  "analyze ast_parse rt (snd (analyze ast_parse rt a code)) code =
     (fst (analyze ast_parse rt a code), snd (analyze ast_parse rt a code))"
proof (cases "ast_parse code")
  case (Inl e)
  then have "snd (analyze ast_parse rt a code) = a" by (simp add: analyze_state)
  then show ?thesis by (simp add: prod_eq_iff)
next
  case (Inr tree)
  obtain a' err where v: "visit rt [] tree a = (a', err)"
    by (cases "visit rt [] tree a") simp
  with visit_idem [of rt "[]" tree a] have again: "visit rt [] tree a' = (a', err)" by simp
  from Inr v have "snd (analyze ast_parse rt a code) = a'" by (simp add: analyze_state)
  moreover from Inr v again
  have "analyze ast_parse rt a' code = analyze ast_parse rt a code" by (simp add: analyze_def)
  ultimately show ?thesis by (simp add: prod_eq_iff)
qed

text \<open>
  Claim C7 as stated fails: the report depends on what the instance has collected
  before. On a fresh instance the text \<open>x = 1\<close> is reported with no imports; the same
  text analyzed again on that instance after \<open>import os\<close> is reported with the import
  \<open>os\<close>.
\<close>

theorem analyze_hidden_state_counterexample:
  "fst (analyze demo_parse (call_stack 998) new_analyzer ''x = 1'')
     \<noteq> fst (analyze demo_parse (call_stack 998)
               (analyze_calls demo_parse (call_stack 998) new_analyzer [''x = 1'', ''import os''])
               ''x = 1'')"
  by (simp add: analyze_def demo_parse_def visit_import_os visit_assignment new_analyzer_def)

text \<open>
  Claim C10, as amended. On one instance the three collections only grow from call to
  call, whether the calls return or raise. After any sequence of earlier \<open>analyze\<close>
  calls, when a later call returns a report, then either the report has no
  \<open>syntax_error\<close> and its three collections include every name the instance held after
  each of the earlier calls, or it has one and its three collections are empty.
\<close>

theorem analyze_accumulates:
  "collected_within (analyze_calls ast_parse rt a (take n earlier))
       (analyze_calls ast_parse rt a earlier)
   \<and> collected_within (analyze_calls ast_parse rt a earlier)
       (snd (analyze ast_parse rt (analyze_calls ast_parse rt a earlier) code))
   \<and> (\<forall>r. fst (analyze ast_parse rt (analyze_calls ast_parse rt a earlier) code) = Inr r \<longrightarrow>
          (case syntax_error r of
             None \<Rightarrow>
               imports_set (analyze_calls ast_parse rt a (take n earlier)) \<subseteq> r_imports r
               \<and> function_calls (analyze_calls ast_parse rt a (take n earlier)) \<subseteq> r_function_calls r
               \<and> attribute_accesses (analyze_calls ast_parse rt a (take n earlier))
                   \<subseteq> r_attribute_accesses r
           | Some msg \<Rightarrow>
               r_imports r = {} \<and> r_function_calls r = {} \<and> r_attribute_accesses r = {}))"
proof -
  let ?before = "analyze_calls ast_parse rt a earlier"
  let ?early = "analyze_calls ast_parse rt a (take n earlier)"
  let ?after = "snd (analyze ast_parse rt ?before code)"
  have step: "collected_within ?early ?before"
    by (rule analyze_calls_prefix)
  have last: "collected_within ?before ?after"
    by (rule analyze_grows)
  from step last have all: "collected_within ?early ?after"
    by (rule collected_within_trans)
  have "case syntax_error r of
             None \<Rightarrow>
               imports_set ?early \<subseteq> r_imports r
               \<and> function_calls ?early \<subseteq> r_function_calls r
               \<and> attribute_accesses ?early \<subseteq> r_attribute_accesses r
           | Some msg \<Rightarrow>
               r_imports r = {} \<and> r_function_calls r = {} \<and> r_attribute_accesses r = {}"
    if "fst (analyze ast_parse rt ?before code) = Inr r" for r
    using analyze_report_shape [OF that] all
    by (cases "syntax_error r") (simp_all add: collected_within_def)
  with step last show ?thesis by blast
qed

text \<open>
  The theorem at \<open>import os\<close> and \<open>deep_chain\<close> followed by \<open>x = 1\<close>: the second call
  raised \<open>RecursionError\<close>, and the report of the third call lists the import of the
  first call and the attribute name that the second call had recorded before it raised.
\<close>

theorem analyze_accumulates_witness:
  "analyze_calls demo_parse (call_stack 998) new_analyzer [''import os'', deep_chain]
     = new_analyzer\<lparr>imports_set := {''os''}, attribute_accesses := {''b''}\<rparr>
   \<and> (\<exists>r. fst (analyze demo_parse (call_stack 998)
                  (analyze_calls demo_parse (call_stack 998) new_analyzer [''import os'', deep_chain])
                  ''x = 1'') = Inr r
         \<and> syntax_error r = None \<and> ''os'' \<in> r_imports r \<and> ''b'' \<in> r_attribute_accesses r)"
proof -
  let ?S = "new_analyzer\<lparr>imports_set := {''os''}, attribute_accesses := {''b''}\<rparr>"
  let ?r = "\<lparr> safe = True, r_violations = [], syntax_error = None,
              r_imports = imports_set ?S, r_function_calls = function_calls ?S,
              r_attribute_accesses = attribute_accesses ?S,
              risk_level = ''none'', recommendations = [] \<rparr>"
  have st: "analyze_calls demo_parse (call_stack 998) new_analyzer [''import os'', deep_chain] = ?S"
    by (simp add: analyze_deep_chain)
       (simp add: analyze_def demo_parse_def visit_import_os new_analyzer_def)
  have rep: "fst (analyze demo_parse (call_stack 998) ?S ''x = 1'') = Inr ?r"
    by (simp add: analyze_def demo_parse_def visit_assignment)
  from analyze_accumulates
         [where ast_parse = demo_parse and rt = "call_stack 998" and a = new_analyzer
            and earlier = "[''import os'', deep_chain]" and n = 2 and code = "''x = 1''"]
  have "fst (analyze demo_parse (call_stack 998) ?S ''x = 1'') = Inr ?r \<longrightarrow>
          imports_set ?S \<subseteq> r_imports ?r \<and> attribute_accesses ?S \<subseteq> r_attribute_accesses ?r"
    unfolding st by simp
  with rep have "''os'' \<in> r_imports ?r \<and> ''b'' \<in> r_attribute_accesses ?r"
    by simp
  with st rep show ?thesis by simp
qed

text \<open>
  Claim C10 as stated fails when the later text does not parse: the instance still
  holds \<open>os\<close>, but the report of the failed call lists no import.
\<close>

theorem analyze_report_forgets_counterexample:
  "''os'' \<in> imports_set (analyze_calls demo_parse (call_stack 998) new_analyzer [''import os''])
   \<and> (\<exists>r. fst (analyze demo_parse (call_stack 998)
                  (analyze_calls demo_parse (call_stack 998) new_analyzer [''import os''])
                  ''x ='') = Inr r
         \<and> r_imports r = {})"
  by (simp add: analyze_def demo_parse_def visit_import_os new_analyzer_def)

section \<open>Properties of the resource monitor\<close>

text \<open>
  Claim C4 fails on the code. Whatever the sampled usage, the limit and the platform,
  when the message of the limit error renders, \<open>check_memory_usage\<close> returns normally:
  the \<open>MemoryLimitError\<close> raised inside the \<open>try\<close> block is caught by the function's
  own \<open>except Exception\<close> clause and never reaches the caller.
\<close>

theorem check_memory_usage_swallows:
  assumes "\<not> isl (render (max_memory m div (1024 * 1024))
                     ((if plat = Darwin then usage else usage * 1024) div (1024 * 1024)))"
  shows "check_memory_usage render plat (Inr usage) m = Inr ()"
proof (cases "2 * (if plat = Darwin then usage else usage * 1024) > 3 * max_memory m")
  case False
  then show ?thesis
    by (simp add: check_memory_usage_def check_memory_usage_body_def Let_def)
next
  case True
  from assms obtain msg where
    "render (max_memory m div (1024 * 1024))
        ((if plat = Darwin then usage else usage * 1024) div (1024 * 1024)) = Inr msg"
    by (cases "render (max_memory m div (1024 * 1024))
        ((if plat = Darwin then usage else usage * 1024) div (1024 * 1024))") simp_all
  with True show ?thesis
    by (simp add: check_memory_usage_def check_memory_usage_body_def Let_def
        MemoryLimitError_def is_Exception_def)
qed

text \<open>
  The theorem at a limit of 1 MB and a sampled \<open>ru_maxrss\<close> of 4096 KB on Linux, well
  over 1.5 times the limit: the body raises \<open>MemoryLimitError(1, 4)\<close>, the call returns.
\<close>

theorem check_memory_usage_swallows_witness:
  "check_memory_usage_body (\<lambda>l u. Inr ''memory limit exceeded'') OtherPlatform (Inr 4096) (new_monitor 1 120)
     = Inl (MemoryLimitError (\<lambda>l u. Inr ''memory limit exceeded'') 1 4)
   \<and> check_memory_usage (\<lambda>l u. Inr ''memory limit exceeded'') OtherPlatform (Inr 4096) (new_monitor 1 120)
     = Inr ()"
proof -
  have body: "check_memory_usage_body (\<lambda>l u. Inr ''memory limit exceeded'') OtherPlatform (Inr 4096) (new_monitor 1 120)
     = Inl (MemoryLimitError (\<lambda>l u. Inr ''memory limit exceeded'') 1 4)"
    by (simp add: check_memory_usage_body_def new_monitor_def Let_def)
  show ?thesis
    using body check_memory_usage_swallows [of "\<lambda>l u. Inr ''memory limit exceeded''" "new_monitor 1 120" OtherPlatform 4096]
    by simp
qed

section \<open>Properties of the executor\<close>

lemma strip_all_space: "list_all py_isspace code \<Longrightarrow> py_strip code = []"
proof -
  assume "list_all py_isspace code"
  then have d: "dropWhile py_isspace code = []"
    by (simp add: list_all_iff)
  show ?thesis
    unfolding py_strip_def d by simp
qed



lemma handle_exception_cases:
  "handle_exception dmg e b = Inr out \<Longrightarrow> \<exists>err msg sug buf. out = Failure err msg sug buf"
  by (auto simp: handle_exception_def split: if_splits sum.splits option.splits)

lemma handle_exception_no_success: "handle_exception dmg e b \<noteq> Inr (Success out res la)"
  using handle_exception_cases [of dmg e b "Success out res la"] by auto


lemma first_failure_among:
  "first_failure dmg cs = Some e \<Longrightarrow> \<exists>c. fails dmg c = Some e"
  by (induction cs) (auto split: option.splits)

lemma keep_public_raises:
  "keep_public d = Inl e \<Longrightarrow> \<exists>k v. (k, v) \<in> set d \<and> key_startswith k = Inl e"
proof (induction d)
  case Nil
  then show ?case by simp
next
  case (Cons kv d)
  obtain k v where kv: "kv = (k, v)" by (cases kv) auto
  show ?case
  proof (cases "key_startswith k")
    case (Inl e')
    with Cons.prems kv have "e' = e" by simp
    with Inl kv show ?thesis by auto
  next
    case (Inr hidden)
    with Cons.prems kv have "keep_public d = Inl e"
      by (cases "keep_public d") simp_all
    from Cons.IH [OF this] show ?thesis by auto
  qed
qed

lemma keep_public_kept:
  "keep_public d = Inr kept \<Longrightarrow> kept = filter (\<lambda>(k, v). key_startswith k = Inr False) d"
proof (induction d arbitrary: kept)
  case Nil
  then show ?case by simp
next
  case (Cons kv d)
  obtain k v where kv: "kv = (k, v)" by (cases kv) auto
  from Cons.prems kv obtain hidden where ans: "key_startswith k = Inr hidden"
    by (cases "key_startswith k") simp_all
  from Cons.prems kv ans obtain rest where rest: "keep_public d = Inr rest"
    by (cases "keep_public d") simp_all
  from Cons.prems kv ans rest have "kept = (if hidden then rest else (k, v) # rest)"
    by simp
  with Cons.IH [OF rest] kv ans show ?case by auto
qed

lemma conclude_cases:
  obtains (failed) e where
      "conclude l r = (handle_exception (spoiled r) e (Some (written r)), heap_after r)"
      and "raised r = Some e
           \<or> raised r = None \<and> ((\<exists>c. fails (spoiled r) c = Some e)
                \<or> (\<exists>k v. (k, v) \<in> set (deref (heap_after r) l) \<and> key_startswith k = Inl e))"
  | (succeeded) kept where "raised r = None"
      and "keep_public (deref (heap_after r) l) = Inr kept"
      and "conclude l r
             = (Inr (Success (written r) (dict_get (deref (heap_after r) l) ''result'')
                       (length (heap_after r))),
                heap_after r @ [kept])"
proof (cases "raised r")
  case (Some e)
  then have "conclude l r = (handle_exception (spoiled r) e (Some (written r)), heap_after r)"
    by (simp add: conclude_def)
  with Some failed show thesis by blast
next
  case None
  show thesis
  proof (cases "first_failure (spoiled r) [ReadBuffer, LookupResult, ReadClock, LogInfo]")
    case (Some e)
    with None
    have "conclude l r = (handle_exception (spoiled r) e (Some (written r)), heap_after r)"
      by (simp add: conclude_def)
    moreover from first_failure_among [OF Some] have "\<exists>c. fails (spoiled r) c = Some e" .
    ultimately show thesis using None failed by blast
  next
    case none: None
    show thesis
    proof (cases "keep_public (deref (heap_after r) l)")
      case (Inl e)
      with None none
      have "conclude l r = (handle_exception (spoiled r) e (Some (written r)), heap_after r)"
        by (simp add: conclude_def)
      moreover from keep_public_raises [OF Inl]
      have "\<exists>k v. (k, v) \<in> set (deref (heap_after r) l) \<and> key_startswith k = Inl e" .
      ultimately show thesis using None failed by blast
    next
      case (Inr kept)
      with None none
      have "conclude l r
             = (Inr (Success (written r) (dict_get (deref (heap_after r) l) ''result'')
                       (length (heap_after r))),
                heap_after r @ [kept])"
        by (simp add: conclude_def alloc_def)
      with None Inr succeeded show thesis by blast
    qed
  qed
qed


lemma attempt_events:
  "attempt H src g l h dmg = Some (evs, r)
     \<Longrightarrow> evs = [Compile src] \<or> evs = [Compile src, Exec src g l]"
  by (auto simp: attempt_def split: option.splits)

lemma dict_set_fresh: "k \<notin> fst ` set d \<Longrightarrow> dict_set k v d = d @ [(k, v)]"
  by (induction d) auto

lemma fold_dict_set_distinct:
  "distinct (map fst other) \<Longrightarrow> fst ` set d \<inter> fst ` set other = {}
     \<Longrightarrow> fold (\<lambda>(k, v) acc. dict_set k v acc) other d = d @ other"
proof (induction other arbitrary: d)
  case Nil
  then show ?case by simp
next
  case (Cons kv other)
  obtain k v where kv: "kv = (k, v)" by (cases kv) auto
  from Cons.prems kv have fresh: "k \<notin> fst ` set d" by auto
  from Cons.prems kv have "fst ` set (d @ [(k, v)]) \<inter> fst ` set other = {}"
    by auto
  moreover from Cons.prems have "distinct (map fst other)" by simp
  ultimately have "fold (\<lambda>(k, v) acc. dict_set k v acc) other (d @ [(k, v)]) = (d @ [(k, v)]) @ other"
    by (rule Cons.IH [rotated])
  with fresh kv show ?case by (simp add: dict_set_fresh)
qed

lemma dict_update_empty: "distinct (map fst d) \<Longrightarrow> dict_update [] d = d"
  using fold_dict_set_distinct [of d "[]"] by (simp add: dict_update_def)

lemma build_namespaces_shape:
  assumes "build_namespaces H ex ctx h = (g, l, h3)"
  shows "g = length h" and "l = Suc (length h)" and "length h3 = Suc (Suc (length h))"
    and "\<forall>a < length h. h3 ! a = h ! a"
  using assms
  by (auto simp: build_namespaces_def alloc_def store_def deref_def nth_append Let_def
           split: option.splits if_splits)

lemma build_namespaces_locals:
  assumes "build_namespaces H ex (Some c) h = (g, l, h3)" and "c < length h"
  shows "deref h3 l = dict_update [] (deref h c)"
  using assms
  by (auto simp: build_namespaces_def alloc_def store_def deref_def nth_append Let_def
                 dict_update_def
           split: if_splits)

lemma attempt_frame:
  assumes "writes_only_namespaces H" and "attempt H src g l h dmg = Some (evs, r)"
  shows "length h \<le> length (heap_after r)"
    and "\<forall>a < length h. a \<noteq> g \<and> a \<noteq> l \<longrightarrow> heap_after r ! a = h ! a"
    and "\<forall>ev \<in> set evs. ev = Compile src \<or> ev = Exec src g l"
proof -
  show "\<forall>ev \<in> set evs. ev = Compile src \<or> ev = Exec src g l"
    using attempt_events [OF assms(2)] by auto
  show "length h \<le> length (heap_after r)"
  proof (cases "host_compile H src")
    case (Some e)
    with assms(2) show ?thesis by (auto simp: attempt_def)
  next
    case None
    with assms(2) have "host_exec H src g l h = Some r"
      by (auto simp: attempt_def split: option.splits)
    with assms(1) show ?thesis unfolding writes_only_namespaces_def by blast
  qed
  show "\<forall>a < length h. a \<noteq> g \<and> a \<noteq> l \<longrightarrow> heap_after r ! a = h ! a"
  proof (cases "host_compile H src")
    case (Some e)
    with assms(2) show ?thesis by (auto simp: attempt_def)
  next
    case None
    with assms(2) have "host_exec H src g l h = Some r"
      by (auto simp: attempt_def split: option.splits)
    with assms(1) show ?thesis unfolding writes_only_namespaces_def by blast
  qed
qed

lemma sandboxed_run_cases:
  assumes "sandboxed_run H p code g l h = Some (evs, r)"
  obtains (single) "attempt H p g l h [] = Some (evs, r)"
  | (log_failed) r1 e e_log where
      "attempt H p g l h [] = Some (evs, r1)" and "raised r1 = Some e" and "is_Exception e"
      and "p \<noteq> code" and "fails (spoiled r1) LogInfo = Some e_log"
      and "r = r1\<lparr> raised := Some e_log \<rparr>"
  | (retry) evs1 r1 evs2 r2 e where
      "attempt H p g l h [] = Some (evs1, r1)" and "raised r1 = Some e" and "is_Exception e"
      and "p \<noteq> code" and "fails (spoiled r1) LogInfo = None"
      and "attempt H code g l (heap_after r1) (spoiled r1) = Some (evs2, r2)"
      and "evs = evs1 @ evs2" and "r = r2\<lparr> written := written r1 @ written r2 \<rparr>"
proof -
  from assms obtain evs1 r1 where a1: "attempt H p g l h [] = Some (evs1, r1)"
    by (cases "attempt H p g l h []") (auto simp: sandboxed_run_def)
  show thesis
  proof (cases "raised r1")
    case None
    with assms a1 have "evs = evs1 \<and> r = r1" by (simp add: sandboxed_run_def)
    with a1 single show thesis by simp
  next
    case (Some e)
    show thesis
    proof (cases "is_Exception e \<and> p \<noteq> code")
      case False
      with assms a1 Some have "evs = evs1 \<and> r = r1"
        by (auto simp: sandboxed_run_def split: if_splits)
      with a1 single show thesis by simp
    next
      case True
      show thesis
      proof (cases "fails (spoiled r1) LogInfo")
        case (Some e_log)
        with assms a1 \<open>raised r1 = Some e\<close> True
        have "evs = evs1" and "r = r1\<lparr> raised := Some e_log \<rparr>"
          by (simp_all add: sandboxed_run_def)
        with a1 \<open>raised r1 = Some e\<close> True Some log_failed show thesis by blast
      next
        case None
        with assms a1 Some True obtain a2
          where a2: "attempt H code g l (heap_after r1) (spoiled r1) = Some a2"
          by (cases "attempt H code g l (heap_after r1) (spoiled r1)")
             (auto simp: sandboxed_run_def)
        obtain evs2 r2 where s2: "a2 = (evs2, r2)" by (cases a2) auto
        from assms a1 Some True None a2 s2
        have "evs = evs1 @ evs2" and "r = r2\<lparr> written := written r1 @ written r2 \<rparr>"
          by (simp_all add: sandboxed_run_def)
        with a1 Some True None a2 s2 retry show thesis by blast
      qed
    qed
  qed
qed

lemma sandboxed_run_frame:
  assumes "writes_only_namespaces H" and "sandboxed_run H p code g l h = Some (evs, r)"
  shows "length h \<le> length (heap_after r)"
    and "\<forall>a < length h. a \<noteq> g \<and> a \<noteq> l \<longrightarrow> heap_after r ! a = h ! a"
    and "\<forall>ev \<in> set evs. \<forall>src g' l'. ev = Exec src g' l' \<longrightarrow> g' = g \<and> l' = l"
proof -
  have "length h \<le> length (heap_after r)
        \<and> (\<forall>a < length h. a \<noteq> g \<and> a \<noteq> l \<longrightarrow> heap_after r ! a = h ! a)
        \<and> (\<forall>ev \<in> set evs. \<forall>src g' l'. ev = Exec src g' l' \<longrightarrow> g' = g \<and> l' = l)"
    using assms(2)
  proof (cases rule: sandboxed_run_cases)
    case single
    from attempt_frame [OF assms(1) single] show ?thesis by auto
  next
    case (log_failed r1 e e_log)
    from attempt_frame [OF assms(1) log_failed(1)] log_failed(6) show ?thesis by auto
  next
    case (retry evs1 r1 evs2 r2 e)
    note f1 = attempt_frame [OF assms(1) retry(1)]
    note f2 = attempt_frame [OF assms(1) retry(6)]
    from retry(8) have hr: "heap_after r = heap_after r2" by simp
    from f1(1) f2(1) have len: "length h \<le> length (heap_after r2)" by simp
    have "\<forall>a < length h. a \<noteq> g \<and> a \<noteq> l \<longrightarrow> heap_after r2 ! a = h ! a"
    proof (intro allI impI)
      fix a assume "a < length h" and "a \<noteq> g \<and> a \<noteq> l"
      with f1(1,2) f2(2) show "heap_after r2 ! a = h ! a" by auto
    qed
    moreover from f1(3) f2(3) retry(7)
    have "\<forall>ev \<in> set evs. \<forall>src g' l'. ev = Exec src g' l' \<longrightarrow> g' = g \<and> l' = l" by auto
    ultimately show ?thesis using len hr by simp
  qed
  then show "length h \<le> length (heap_after r)"
    and "\<forall>a < length h. a \<noteq> g \<and> a \<noteq> l \<longrightarrow> heap_after r ! a = h ! a"
    and "\<forall>ev \<in> set evs. \<forall>src g' l'. ev = Exec src g' l' \<longrightarrow> g' = g \<and> l' = l"
    by blast+
qed

lemma execute_code_cases:
  assumes "execute_code H ex code ctx h = Some rep"
  obtains (empty) "code = [] \<or> py_strip code = []"
      and "rep = \<lparr> events = [], final_heap = h, ending = Inr EmptyCode \<rparr>"
  | (repair_raised) e where "preprocess_code_with_string_handling H code = Inl e"
      and "rep = \<lparr> events = [CheckSecurity, Preprocess], final_heap = h,
                   ending = handle_exception [] e None \<rparr>"
  | (ran) p g l h3 evs r where "preprocess_code_with_string_handling H code = Inr p"
      and "build_namespaces H ex ctx h = (g, l, h3)"
      and "sandboxed_run H p code g l h3 = Some (evs, r)"
      and "rep = \<lparr> events = [CheckSecurity, Preprocess, CreateGlobals] @ evs,
                   final_heap = snd (conclude l r), ending = fst (conclude l r) \<rparr>"
proof (cases "code = [] \<or> py_strip code = []")
  case True
  with assms have "rep = \<lparr> events = [], final_heap = h, ending = Inr EmptyCode \<rparr>"
    by (simp add: execute_code_def)
  with True empty show thesis by blast
next
  case False
  show thesis
  proof (cases "preprocess_code_with_string_handling H code")
    case (Inl e)
    with assms False
    have "rep = \<lparr> events = [CheckSecurity, Preprocess], final_heap = h,
                   ending = handle_exception [] e None \<rparr>"
      by (simp add: execute_code_def Let_def)
    with Inl repair_raised show thesis by blast
  next
    case (Inr p)
    obtain g l h3 where ns: "build_namespaces H ex ctx h = (g, l, h3)"
      by (cases "build_namespaces H ex ctx h") auto
    from assms False Inr ns obtain a where run: "sandboxed_run H p code g l h3 = Some a"
      by (cases "sandboxed_run H p code g l h3") (simp_all add: execute_code_def Let_def)
    obtain evs r where a: "a = (evs, r)" by (cases a) auto
    from assms False Inr ns run a
    have "rep = \<lparr> events = [CheckSecurity, Preprocess, CreateGlobals] @ evs,
                   final_heap = snd (conclude l r), ending = fst (conclude l r) \<rparr>"
      by (simp add: execute_code_def Let_def case_prod_beta)
    with Inr ns run a ran show thesis by blast
  qed
qed

lemma execute_code_ran:
  assumes "\<not> (code = [] \<or> py_strip code = [])"
      and "preprocess_code_with_string_handling H code = Inr p"
      and "build_namespaces H ex ctx h = (g, l, h3)"
      and "sandboxed_run H p code g l h3 = Some (evs, r)"
  shows "execute_code H ex code ctx h
           = Some \<lparr> events = [CheckSecurity, Preprocess, CreateGlobals] @ evs,
                    final_heap = snd (conclude l r), ending = fst (conclude l r) \<rparr>"
  using assms by (simp add: execute_code_def Let_def case_prod_beta)

lemma sandbox_keeps_caller_objects:
  assumes "writes_only_namespaces H" and "c < length h"
      and "build_namespaces H ex ctx h = (g, l, h3)"
      and "sandboxed_run H p code g l h3 = Some (evs, r)"
  shows "c < length (heap_after r)" and "heap_after r ! c = h ! c"
    and "\<forall>src g' l'. Exec src g' l' \<in> set evs \<longrightarrow> g' = g \<and> l' = l"
proof -
  note shape = build_namespaces_shape [OF assms(3)]
  note frame = sandboxed_run_frame [OF assms(1,4)]
  from shape(3) assms(2) have c3: "c < length h3" by simp
  with frame(1) show "c < length (heap_after r)" by simp
  from shape(1,2) assms(2) have "c \<noteq> g \<and> c \<noteq> l" by simp
  with frame(2) c3 have "heap_after r ! c = h3 ! c" by blast
  with shape(4) assms(2) show "heap_after r ! c = h ! c" by simp
  from frame(3) show "\<forall>src g' l'. Exec src g' l' \<in> set evs \<longrightarrow> g' = g \<and> l' = l" by blast
qed

lemma execute_code_keeps_caller_objects:
  assumes "writes_only_namespaces H" and "c < length h"
      and "execute_code H ex code ctx h = Some rep"
  shows "c < length (final_heap rep)" and "final_heap rep ! c = h ! c"
    and "\<forall>src g l. Exec src g l \<in> set (events rep) \<longrightarrow>
            (\<exists>hs. build_namespaces H ex ctx h = (g, l, hs))"
    and "\<forall>out res la. ending rep = Inr (Success out res la) \<longrightarrow>
            length h < la \<and> la < length (final_heap rep)"
proof -
  have "c < length (final_heap rep) \<and> final_heap rep ! c = h ! c
        \<and> (\<forall>src g l. Exec src g l \<in> set (events rep) \<longrightarrow>
              (\<exists>hs. build_namespaces H ex ctx h = (g, l, hs)))
        \<and> (\<forall>out res la. ending rep = Inr (Success out res la) \<longrightarrow>
              length h < la \<and> la < length (final_heap rep))"
    using assms(3)
  proof (cases rule: execute_code_cases)
    case empty
    with assms(2) show ?thesis by simp
  next
    case (repair_raised e)
    with assms(2) show ?thesis by (simp add: handle_exception_no_success)
  next
    case (ran p g l h3 evs r)
    note keeps = sandbox_keeps_caller_objects [OF assms(1,2) ran(2,3)]
    note shape = build_namespaces_shape [OF ran(2)]
    from sandboxed_run_frame(1) [OF assms(1) ran(3)] shape(3)
    have longer: "length h < length (heap_after r)" by simp
    show ?thesis
    proof (cases rule: conclude_cases [where l = l and r = r])
      case (failed e)
      with keeps ran(2,4) show ?thesis
        by (auto simp: handle_exception_no_success)
    next
      case (succeeded kept)
      with keeps ran(2,4) longer show ?thesis
        by (auto simp: nth_append)
    qed
  qed
  then show "c < length (final_heap rep)" and "final_heap rep ! c = h ! c"
    and "\<forall>src g l. Exec src g l \<in> set (events rep) \<longrightarrow>
            (\<exists>hs. build_namespaces H ex ctx h = (g, l, hs))"
    and "\<forall>out res la. ending rep = Inr (Success out res la) \<longrightarrow>
            length h < la \<and> la < length (final_heap rep)"
    by blast+
qed






lemma demo_host_frame: "writes_only_namespaces demo_host"
  by (auto simp: writes_only_namespaces_def demo_host_def demo_exec_def returns_with_def
        raises_with_def store_def split: if_splits)




text \<open>
  Claim C2 fails on the code. \<open>execute_code\<close> never enters
  \<open>self.monitor.monitor_execution()\<close>: no alarm is set, and the configured
  \<open>max_execution_time\<close> is never read. When the run of the preprocessed text does not
  come back, \<open>execute_code\<close> does not return, whatever limits the executor was built
  with.
\<close>

theorem execute_code_arms_no_deadline:
  assumes "py_strip code \<noteq> []"
      and "preprocess_code_with_string_handling H code = Inr p"
      and "host_compile H p = None"
      and "\<forall>g l hp. host_exec H p g l hp = None"
  shows "execute_code H (new_executor mem secs ast_analysis string_validation modules) code ctx h
           = None"
proof -
  from assms(1) have ne: "\<not> (code = [] \<or> py_strip code = [])"
    by (auto simp: py_strip_def)
  from assms(3,4) have "\<And>g l hp dmg. attempt H p g l hp dmg = None"
    by (simp add: attempt_def)
  then have "\<And>g l hp. sandboxed_run H p code g l hp = None"
    by (simp add: sandboxed_run_def)
  with ne assms(2) show ?thesis
    by (simp add: execute_code_def Let_def split: prod.splits)
qed

text \<open>
  The theorem at \<open>while True: pass\<close> with a time ceiling of two seconds: the call never
  returns, so no \<open>TimeoutError\<close> failure is reported.
\<close>

theorem execute_code_arms_no_deadline_witness:
  "py_strip ''while True: pass'' \<noteq> []
   \<and> preprocess_code_with_string_handling demo_host ''while True: pass'' = Inr ''while True: pass''
   \<and> host_compile demo_host ''while True: pass'' = None
   \<and> execute_code demo_host (new_executor 2048 2 False True []) ''while True: pass'' None [] = None"
proof -
  have a: "py_strip ''while True: pass'' \<noteq> []" by code_simp
  have b: "preprocess_code_with_string_handling demo_host ''while True: pass'' = Inr ''while True: pass''"
    by code_simp
  have c: "host_compile demo_host ''while True: pass'' = None"
    by (simp add: demo_host_def)
  have d: "\<forall>g l hp. host_exec demo_host ''while True: pass'' g l hp = None"
    by (simp add: demo_host_def demo_exec_def)
  from execute_code_arms_no_deadline [OF a b c d, of 2048 2 False True "[]" None "[]"] a b c
  show ?thesis by simp
qed

text \<open>
  Claim C3. For every input that is empty or holds only whitespace, \<open>execute_code\<close>
  returns the \<open>EmptyCode\<close> failure at once: no call of the security check, of the
  preprocessing, of \<open>create_safe_globals\<close>, of \<open>compile\<close> or of \<open>exec\<close> is made, and the
  store is as the caller left it.
\<close>

theorem empty_code_rejected_at_once:
  assumes "list_all py_isspace code"
  shows "execute_code H ex code ctx h
           = Some \<lparr> events = [], final_heap = h, ending = Inr EmptyCode \<rparr>"
  using assms by (simp add: execute_code_def strip_all_space)

text \<open>
  The theorem at the text made of a space, a tab and a line feed.
\<close>

theorem empty_code_rejected_at_once_witness:
  "list_all py_isspace [CHR '' '', CHR 0x09, CHR 0x0A]
   \<and> execute_code demo_host demo_executor [CHR '' '', CHR 0x09, CHR 0x0A] None []
       = Some \<lparr> events = [], final_heap = [], ending = Inr EmptyCode \<rparr>"
proof -
  have h: "list_all py_isspace [CHR '' '', CHR 0x09, CHR 0x0A]"
    by (simp add: py_isspace_def)
  show ?thesis
    using h empty_code_rejected_at_once
              [where code = "[CHR '' '', CHR 0x09, CHR 0x0A]" and H = demo_host
                 and ex = demo_executor and ctx = None and h = "[]"]
    by simp
qed

text \<open>
  Claim C5, as amended. Let the first try (compile and run of the preprocessed text on
  the namespaces the engine built) raise an exception that derives from \<open>Exception\<close>.
  If the preprocessed text differs from the original and the \<open>logger.info\<close> call
  before the retry works, the original text is tried exactly once more on the same
  namespaces: \<open>execute_code\<close> returns exactly when that second try comes back, the
  calls made are those of the first try followed by those of the second, the original
  text is compiled once, two compiles are made in all, and the reply is what lines 444
  to 459 and the clauses make of the second try: a success, a failure, or an exception
  that leaves. If that \<open>logger.info\<close> call raises, there is no second try and its
  exception goes to the clauses. If the preprocessed text is the original, what the
  clauses make of the exception of the first try is the reply and one compile is made
  in all.
\<close>

theorem fallback_runs_original_once:
  assumes "py_strip code \<noteq> []"
      and "preprocess_code_with_string_handling H code = Inr p"
      and "build_namespaces H ex ctx h = (g, l, h3)"
      and "attempt H p g l h3 [] = Some (evs1, r1)"
      and "raised r1 = Some e"
      and "is_Exception e"
  shows "if p \<noteq> code
         then (case fails (spoiled r1) LogInfo of
                 Some e_log \<Rightarrow>
                   (\<exists>rep. execute_code H ex code ctx h = Some rep
                      \<and> events rep = [CheckSecurity, Preprocess, CreateGlobals] @ evs1
                      \<and> length (filter is_compile (events rep)) = 1
                      \<and> ending rep = handle_exception (spoiled r1) e_log (Some (written r1)))
               | None \<Rightarrow>
                   (case attempt H code g l (heap_after r1) (spoiled r1) of
                      None \<Rightarrow> execute_code H ex code ctx h = None
                    | Some (evs2, r2) \<Rightarrow>
                        (\<exists>rep. execute_code H ex code ctx h = Some rep
                           \<and> events rep = [CheckSecurity, Preprocess, CreateGlobals] @ evs1 @ evs2
                           \<and> count_list (events rep) (Compile code) = 1
                           \<and> length (filter is_compile (events rep)) = 2
                           \<and> ending rep
                               = fst (conclude l (r2\<lparr> written := written r1 @ written r2 \<rparr>))
                           \<and> final_heap rep
                               = snd (conclude l (r2\<lparr> written := written r1 @ written r2 \<rparr>)))))
         else (\<exists>rep. execute_code H ex code ctx h = Some rep
                  \<and> events rep = [CheckSecurity, Preprocess, CreateGlobals] @ evs1
                  \<and> length (filter is_compile (events rep)) = 1
                  \<and> ending rep = handle_exception (spoiled r1) e (Some (written r1)))"
proof -
  from assms(1) have ne: "\<not> (code = [] \<or> py_strip code = [])"
    by (auto simp: py_strip_def)
  note ev1 = attempt_events [OF assms(4)]
  show ?thesis
  proof (cases "p = code")
    case True
    with assms(4,5,6) have run: "sandboxed_run H p code g l h3 = Some (evs1, r1)"
      by (simp add: sandboxed_run_def)
    from assms(5) have "conclude l r1
                          = (handle_exception (spoiled r1) e (Some (written r1)), heap_after r1)"
      by (simp add: conclude_def)
    with execute_code_ran [OF ne assms(2,3) run] True ev1 show ?thesis by auto
  next
    case False
    show ?thesis
    proof (cases "fails (spoiled r1) LogInfo")
      case (Some e_log)
      with False assms(4,5,6)
      have run: "sandboxed_run H p code g l h3 = Some (evs1, r1\<lparr> raised := Some e_log \<rparr>)"
        by (simp add: sandboxed_run_def)
      have "conclude l (r1\<lparr> raised := Some e_log \<rparr>)
              = (handle_exception (spoiled r1) e_log (Some (written r1)), heap_after r1)"
        by (simp add: conclude_def)
      with execute_code_ran [OF ne assms(2,3) run] False Some ev1 show ?thesis by auto
    next
      case None
      show ?thesis
      proof (cases "attempt H code g l (heap_after r1) (spoiled r1)")
        case none: None
        with False None assms(4,5,6) have "sandboxed_run H p code g l h3 = None"
          by (simp add: sandboxed_run_def)
        with ne assms(2,3) have "execute_code H ex code ctx h = None"
          by (simp add: execute_code_def Let_def)
        with False None none show ?thesis by simp
      next
        case (Some a2)
        obtain evs2 r2 where a2: "a2 = (evs2, r2)" by (cases a2) auto
        note ev2 = attempt_events [OF Some [unfolded a2]]
        let ?r = "r2\<lparr> written := written r1 @ written r2 \<rparr>"
        from False None assms(4,5,6) Some a2
        have run: "sandboxed_run H p code g l h3 = Some (evs1 @ evs2, ?r)"
          by (simp add: sandboxed_run_def)
        have cnt: "count_list ([CheckSecurity, Preprocess, CreateGlobals] @ evs1 @ evs2)
                     (Compile code) = 1"
          and len: "length (filter is_compile
                      ([CheckSecurity, Preprocess, CreateGlobals] @ evs1 @ evs2)) = 2"
          using ev1 ev2 False by auto
        from execute_code_ran [OF ne assms(2,3) run] cnt len False None Some a2
        show ?thesis by simp
      qed
    qed
  qed
qed

text \<open>
  The theorem at \<open>locals()[1] = 2; result = df[' a ']\<close> with \<open>df\<close> in the context: the
  preprocessed text raises \<open>KeyError\<close>, the original text is run once and raises
  nothing, and the call still ends in a failure, because the integer key that the
  snippet left in the locals has no \<open>startswith\<close>. At \<open>result = df[' a ']\<close> the second
  try ends in a success with result 1.
\<close>

theorem fallback_runs_original_once_witness:
  "py_strip int_key_lookup \<noteq> []
   \<and> preprocess_code_with_string_handling demo_host int_key_lookup = Inr int_key_lookup_stripped
   \<and> int_key_lookup_stripped \<noteq> int_key_lookup
   \<and> build_namespaces demo_host demo_executor (Some 0) frame_heap = (1, 2, frame_heap_built)
   \<and> attempt demo_host int_key_lookup_stripped 1 2 frame_heap_built []
       = Some ([Compile int_key_lookup_stripped, Exec int_key_lookup_stripped 1 2],
               raises_with key_error_a
                 (store 2 [(Plain ''df'', Obj ''frame''), (int_key, IntV 2)] frame_heap_built))
   \<and> is_Exception key_error_a
   \<and> (\<exists>rep. execute_code demo_host demo_executor int_key_lookup (Some 0) frame_heap = Some rep
         \<and> events rep = [CheckSecurity, Preprocess, CreateGlobals,
                          Compile int_key_lookup_stripped, Exec int_key_lookup_stripped 1 2,
                          Compile int_key_lookup, Exec int_key_lookup 1 2]
         \<and> count_list (events rep) (Compile int_key_lookup) = 1
         \<and> ending rep = Inr (Failure ''AttributeError''
                               (quoted ''int'' @ '' object has no attribute '' @ quoted ''startswith'')
                               CheckAttributes []))
   \<and> map_option ending (execute_code demo_host demo_executor df_lookup (Some 0) frame_heap)
       = Some (Inr (Success [] (Some (IntV 1)) 3))"
proof -
  let ?h1 = "store 2 [(Plain ''df'', Obj ''frame''), (int_key, IntV 2)] frame_heap_built"
  have a: "py_strip int_key_lookup \<noteq> []" by code_simp
  have b: "preprocess_code_with_string_handling demo_host int_key_lookup
             = Inr int_key_lookup_stripped"
    by code_simp
  have c: "int_key_lookup_stripped \<noteq> int_key_lookup" by code_simp
  have d: "build_namespaces demo_host demo_executor (Some 0) frame_heap = (1, 2, frame_heap_built)"
    by code_simp
  have e: "attempt demo_host int_key_lookup_stripped 1 2 frame_heap_built []
       = Some ([Compile int_key_lookup_stripped, Exec int_key_lookup_stripped 1 2],
               raises_with key_error_a ?h1)"
    by code_simp
  have f: "raised (raises_with key_error_a ?h1) = Some key_error_a"
    by (simp add: raises_with_def)
  have g: "is_Exception key_error_a" by code_simp
  have log: "fails (spoiled (raises_with key_error_a ?h1)) LogInfo = None"
    by (simp add: raises_with_def fails_def)
  have second: "attempt demo_host int_key_lookup 1 2 (heap_after (raises_with key_error_a ?h1))
                  (spoiled (raises_with key_error_a ?h1))
       = Some ([Compile int_key_lookup, Exec int_key_lookup 1 2],
               returns_with (store 2 [(Plain ''df'', Obj ''frame''), (int_key, IntV 2),
                                      (Plain ''result'', IntV 1)] frame_heap_built))"
    by code_simp
  have v: "map_option ending (execute_code demo_host demo_executor int_key_lookup (Some 0) frame_heap)
             = Some (Inr (Failure ''AttributeError''
                            (quoted ''int'' @ '' object has no attribute '' @ quoted ''startswith'')
                            CheckAttributes []))"
    by code_simp
  have w: "map_option ending (execute_code demo_host demo_executor df_lookup (Some 0) frame_heap)
       = Some (Inr (Success [] (Some (IntV 1)) 3))"
    by code_simp
  from fallback_runs_original_once [OF a b d e f g] c log second
  obtain rep where rep: "execute_code demo_host demo_executor int_key_lookup (Some 0) frame_heap = Some rep"
    and evs: "events rep = [CheckSecurity, Preprocess, CreateGlobals]
                @ [Compile int_key_lookup_stripped, Exec int_key_lookup_stripped 1 2]
                @ [Compile int_key_lookup, Exec int_key_lookup 1 2]"
    and cnt: "count_list (events rep) (Compile int_key_lookup) = 1"
    by auto
  from rep v have "ending rep = Inr (Failure ''AttributeError''
                            (quoted ''int'' @ '' object has no attribute '' @ quoted ''startswith'')
                            CheckAttributes [])" by simp
  with a b c d e g w rep evs cnt show ?thesis by simp
qed

text \<open>
  Claim C5 as stated fails for exceptions outside \<open>Exception\<close>: the inner clause is
  \<open>except Exception\<close>. The text \<open>raise SystemExit  # df[' a ']\<close> is changed by the
  preprocessing, its run raises, and yet the original text is neither compiled nor run
  and no failure is reported: the exception leaves \<open>execute_code\<close>.
\<close>

theorem fallback_skipped_on_system_exit_counterexample:
  "preprocess_code_with_string_handling demo_host exit_with_comment = Inr exit_with_comment_stripped
   \<and> exit_with_comment_stripped \<noteq> exit_with_comment
   \<and> attempt demo_host exit_with_comment_stripped 0 1
         [[(Plain ''__builtins__'', Obj ''dict''), (Plain ''math'', Obj ''math'')], []] []
       = Some ([Compile exit_with_comment_stripped, Exec exit_with_comment_stripped 0 1],
               raises_with system_exit
                 [[(Plain ''__builtins__'', Obj ''dict''), (Plain ''math'', Obj ''math'')], []])
   \<and> map_option events (execute_code demo_host demo_executor exit_with_comment None [])
       = Some [CheckSecurity, Preprocess, CreateGlobals,
               Compile exit_with_comment_stripped, Exec exit_with_comment_stripped 0 1]
   \<and> map_option ending (execute_code demo_host demo_executor exit_with_comment None [])
       = Some (Inl system_exit)"
  by code_simp

text \<open>
  Claim C8. Let the context be the caller's dictionary at address \<open>c\<close>, and let the
  snippets write to no existing dictionary but the namespaces they are handed. Then
  after \<open>execute_code\<close> the dictionary at \<open>c\<close> holds what it held before; every \<open>exec\<close>
  was handed globals and locals that are objects other than \<open>c\<close>, the locals starting as
  a copy of the dictionary at \<open>c\<close>; and after a success the returned \<open>locals\<close> is an
  object other than \<open>c\<close>, so that overwriting it with any dictionary \<open>d\<close> changes neither
  the dictionary at \<open>c\<close> nor the locals that a later call with the same context starts
  from. The dictionaries hold references: the statement is about the bindings of the
  mappings, not about objects that the bound values share.
\<close>

theorem context_mapping_is_copied:
  assumes "writes_only_namespaces H"
      and "c < length h"
      and "distinct (map fst (deref h c))"
      and "execute_code H ex code (Some c) h = Some rep"
  shows "deref (final_heap rep) c = deref h c
       \<and> (\<forall>src g l. Exec src g l \<in> set (events rep) \<longrightarrow>
             g \<noteq> c \<and> l \<noteq> c
             \<and> (\<exists>hs. build_namespaces H ex (Some c) h = (g, l, hs) \<and> deref hs l = deref h c))
       \<and> (\<forall>out res la. ending rep = Inr (Success out res la) \<longrightarrow>
             la \<noteq> c
             \<and> (\<forall>d. deref (store la d (final_heap rep)) c = deref h c
                    \<and> (\<forall>g' l' hs. build_namespaces H ex (Some c) (store la d (final_heap rep))
                                     = (g', l', hs)
                                   \<longrightarrow> deref hs l' = deref h c)))"
proof -
  note keeps = execute_code_keeps_caller_objects [OF assms(1,2,4)]
  from keeps(1,2) assms(2) have same: "deref (final_heap rep) c = deref h c"
    by (simp add: deref_def)
  have runs: "\<forall>src g l. Exec src g l \<in> set (events rep) \<longrightarrow>
             g \<noteq> c \<and> l \<noteq> c
             \<and> (\<exists>hs. build_namespaces H ex (Some c) h = (g, l, hs) \<and> deref hs l = deref h c)"
  proof (intro allI impI)
    fix src g l assume "Exec src g l \<in> set (events rep)"
    with keeps(3) obtain hs where ns: "build_namespaces H ex (Some c) h = (g, l, hs)" by blast
    from build_namespaces_shape(1,2) [OF ns] assms(2) have "g \<noteq> c \<and> l \<noteq> c" by simp
    moreover from build_namespaces_locals [OF ns assms(2)] assms(3)
    have "deref hs l = deref h c" by (simp add: dict_update_empty)
    ultimately show "g \<noteq> c \<and> l \<noteq> c
             \<and> (\<exists>hs. build_namespaces H ex (Some c) h = (g, l, hs) \<and> deref hs l = deref h c)"
      using ns by blast
  qed
  have later: "\<forall>out res la. ending rep = Inr (Success out res la) \<longrightarrow>
             la \<noteq> c
             \<and> (\<forall>d. deref (store la d (final_heap rep)) c = deref h c
                    \<and> (\<forall>g' l' hs. build_namespaces H ex (Some c) (store la d (final_heap rep))
                                     = (g', l', hs)
                                   \<longrightarrow> deref hs l' = deref h c))"
  proof (intro allI impI)
    fix out res la assume "ending rep = Inr (Success out res la)"
    with keeps(4) have la: "length h < la" by blast
    with assms(2) have ne: "la \<noteq> c" by simp
    have after: "deref (store la d (final_heap rep)) c = deref h c" for d
      using same ne keeps(1) by (simp add: deref_def store_def)
    have next_run: "deref hs l' = deref h c"
      if "build_namespaces H ex (Some c) (store la d (final_heap rep)) = (g', l', hs)"
      for d g' l' hs
    proof -
      from keeps(1) have "c < length (store la d (final_heap rep))" by (simp add: store_def)
      from build_namespaces_locals [OF that this] after [of d] assms(3)
      show ?thesis by (simp add: dict_update_empty)
    qed
    from ne after next_run
    show "la \<noteq> c
             \<and> (\<forall>d. deref (store la d (final_heap rep)) c = deref h c
                    \<and> (\<forall>g' l' hs. build_namespaces H ex (Some c) (store la d (final_heap rep))
                                     = (g', l', hs)
                                   \<longrightarrow> deref hs l' = deref h c))"
      by blast
  qed
  from same runs later show ?thesis by blast
qed

text \<open>
  The theorem at \<open>result = 2 + 2\<close> with the context \<open>{'df': frame}\<close> at address 0: the
  run binds \<open>result\<close> in the locals at address 2, the returned \<open>locals\<close> is at address
  3, and the context is unchanged, also after the returned \<open>locals\<close> is overwritten.
\<close>

theorem context_mapping_is_copied_witness:
  "writes_only_namespaces demo_host
   \<and> 0 < length frame_heap
   \<and> distinct (map fst (deref frame_heap 0))
   \<and> execute_code demo_host demo_executor ''result = 2 + 2'' (Some 0) frame_heap
       = Some \<lparr> events = [CheckSecurity, Preprocess, CreateGlobals,
                            Compile ''result = 2 + 2'', Exec ''result = 2 + 2'' 1 2],
                final_heap = [[(Plain ''df'', Obj ''frame'')],
                              [(Plain ''__builtins__'', Obj ''dict''), (Plain ''math'', Obj ''math'')],
                              [(Plain ''df'', Obj ''frame''), (Plain ''result'', IntV 4)],
                              [(Plain ''df'', Obj ''frame''), (Plain ''result'', IntV 4)]],
                ending = Inr (Success [] (Some (IntV 4)) 3) \<rparr>
   \<and> deref [[(Plain ''df'', Obj ''frame'')],
            [(Plain ''__builtins__'', Obj ''dict''), (Plain ''math'', Obj ''math'')],
            [(Plain ''df'', Obj ''frame''), (Plain ''result'', IntV 4)],
            [(Plain ''df'', IntV 0)]] 0 = deref frame_heap 0"
proof -
  have a: "0 < length frame_heap" by code_simp
  have b: "distinct (map fst (deref frame_heap 0))" by code_simp
  have run: "execute_code demo_host demo_executor ''result = 2 + 2'' (Some 0) frame_heap
       = Some \<lparr> events = [CheckSecurity, Preprocess, CreateGlobals,
                            Compile ''result = 2 + 2'', Exec ''result = 2 + 2'' 1 2],
                final_heap = [[(Plain ''df'', Obj ''frame'')],
                              [(Plain ''__builtins__'', Obj ''dict''), (Plain ''math'', Obj ''math'')],
                              [(Plain ''df'', Obj ''frame''), (Plain ''result'', IntV 4)],
                              [(Plain ''df'', Obj ''frame''), (Plain ''result'', IntV 4)]],
                ending = Inr (Success [] (Some (IntV 4)) 3) \<rparr>"
    by code_simp
  from context_mapping_is_copied [OF demo_host_frame a b run]
  have "deref (store 3 [(Plain ''df'', IntV 0)]
                 [[(Plain ''df'', Obj ''frame'')],
                  [(Plain ''__builtins__'', Obj ''dict''), (Plain ''math'', Obj ''math'')],
                  [(Plain ''df'', Obj ''frame''), (Plain ''result'', IntV 4)],
                  [(Plain ''df'', Obj ''frame''), (Plain ''result'', IntV 4)]]) 0 = deref frame_heap 0"
    by simp
  then have "deref [[(Plain ''df'', Obj ''frame'')],
            [(Plain ''__builtins__'', Obj ''dict''), (Plain ''math'', Obj ''math'')],
            [(Plain ''df'', Obj ''frame''), (Plain ''result'', IntV 4)],
            [(Plain ''df'', IntV 0)]] 0 = deref frame_heap 0"
    by (simp add: store_def)
  with demo_host_frame a b run show ?thesis by simp
qed

text \<open>
  Claim C9, as amended. In every success that \<open>execute_code\<close> returns, the returned
  \<open>locals\<close> refers to a live dictionary each of whose keys answered false when asked
  \<open>k.startswith('_')\<close>; hence every key of it that is an instance of \<open>str\<close> itself
  does not start with an underscore.
\<close>

theorem success_locals_keys_answered_false:
  assumes "execute_code H ex code ctx h = Some rep"
      and "ending rep = Inr (Success out res la)"
  shows "la < length (final_heap rep)
         \<and> list_all (\<lambda>(k, v). key_startswith k = Inr False) (deref (final_heap rep) la)
         \<and> (\<forall>s v. (Plain s, v) \<in> set (deref (final_heap rep) la) \<longrightarrow> \<not> startswith_underscore s)"
  using assms(1)
proof (cases rule: execute_code_cases)
  case empty
  with assms(2) show ?thesis by simp
next
  case (repair_raised e)
  with assms(2) show ?thesis by (simp add: handle_exception_no_success)
next
  case (ran p g l h3 evs r)
  show ?thesis
  proof (cases rule: conclude_cases [where l = l and r = r])
    case (failed e)
    with ran(4) assms(2) show ?thesis by (simp add: handle_exception_no_success)
  next
    case (succeeded kept)
    from keep_public_kept [OF succeeded(2)]
    have all: "list_all (\<lambda>(k, v). key_startswith k = Inr False) kept"
      by (simp add: list_all_iff)
    from succeeded(3) ran(4) assms(2)
    have la: "la = length (heap_after r)" and fh: "final_heap rep = heap_after r @ [kept]"
      by simp_all
    from la fh have d: "deref (final_heap rep) la = kept" by (simp add: deref_def)
    have "\<not> startswith_underscore s" if "(Plain s, v) \<in> set kept" for s v
    proof -
      from all that have "key_startswith (Plain s) = Inr False"
        by (auto simp: list_all_iff)
      then show ?thesis by simp
    qed
    with all d la fh show ?thesis by simp
  qed
qed

text \<open>
  The theorem at \<open>_t = 1; x = 2\<close>: the run binds \<open>_t\<close> and \<open>x\<close>, the returned \<open>locals\<close>
  holds \<open>x\<close> only.
\<close>

theorem success_locals_keys_answered_false_witness:
  "execute_code demo_host demo_executor ''_t = 1; x = 2'' None []
     = Some \<lparr> events = [CheckSecurity, Preprocess, CreateGlobals,
                          Compile ''_t = 1; x = 2'', Exec ''_t = 1; x = 2'' 0 1],
              final_heap = [[(Plain ''__builtins__'', Obj ''dict''), (Plain ''math'', Obj ''math'')],
                            [(Plain ''_t'', IntV 1), (Plain ''x'', IntV 2)],
                            [(Plain ''x'', IntV 2)]],
              ending = Inr (Success [] None 2) \<rparr>
   \<and> list_all (\<lambda>(k, v). key_startswith k = Inr False) [(Plain ''x'', IntV 2)]
   \<and> \<not> startswith_underscore ''x''"
proof -
  have run: "execute_code demo_host demo_executor ''_t = 1; x = 2'' None []
     = Some \<lparr> events = [CheckSecurity, Preprocess, CreateGlobals,
                          Compile ''_t = 1; x = 2'', Exec ''_t = 1; x = 2'' 0 1],
              final_heap = [[(Plain ''__builtins__'', Obj ''dict''), (Plain ''math'', Obj ''math'')],
                            [(Plain ''_t'', IntV 1), (Plain ''x'', IntV 2)],
                            [(Plain ''x'', IntV 2)]],
              ending = Inr (Success [] None 2) \<rparr>"
    by code_simp
  from success_locals_keys_answered_false [OF run, of "[]" None 2] run
  show ?thesis by (simp add: deref_def)
qed

text \<open>
  Claim C9 as stated fails: line 458 asks each key with the key's own \<open>startswith\<close>.
  The snippet \<open>subclass_key\<close> leaves in its locals a key that is the text \<open>_secret\<close>,
  an instance of a subclass of \<open>str\<close> whose \<open>startswith\<close> answers false; the call
  succeeds and the returned \<open>locals\<close> holds that key, whose text begins with an
  underscore.
\<close>

theorem success_keeps_underscore_key_counterexample:
  "execute_code demo_host demo_executor subclass_key None []
     = Some \<lparr> events = [CheckSecurity, Preprocess, CreateGlobals,
                          Compile subclass_key, Exec subclass_key 0 1],
              final_heap = [[(Plain ''__builtins__'', Obj ''dict''), (Plain ''math'', Obj ''math'')],
                            [(Plain ''K'', Obj ''K''), (secret_key, IntV 1), (Plain ''x'', IntV 2)],
                            [(Plain ''K'', Obj ''K''), (secret_key, IntV 1), (Plain ''x'', IntV 2)]],
              ending = Inr (Success [] None 2) \<rparr>
   \<and> key_text secret_key = Some ''_secret''
   \<and> startswith_underscore ''_secret''"
  by code_simp

end
